theory Spec2Isabelle
  imports Main
begin

section \<open>Python built-ins used by rdfvalue.py\<close>

text \<open>
  The module is Python 2 code: \<open>str\<close> is a byte string, modelled as \<open>string\<close>
  (a list of 8-bit characters); integers are unbounded, modelled as \<open>int\<close>.
  Python's \<open>//\<close> and \<open>%\<close> on integers round towards minus infinity, as \<open>div\<close> and
  \<open>mod\<close> on \<open>int\<close> do.
\<close>

datatype error =
    InitializeError
  | DecodeError
  | TypeError
  | ValueError
  | RuntimeError
  | OverflowError
  | UnicodeDecodeError
  | AttributeError

text \<open>\<open>c.isdigit()\<close> and \<open>c.isspace()\<close> for one byte of a \<open>str\<close>.\<close>

definition isdigit :: "char \<Rightarrow> bool" where
  "isdigit c = (48 \<le> (of_char c :: nat) \<and> (of_char c :: nat) \<le> 57)"

definition isspace :: "char \<Rightarrow> bool" where
  "isspace c = ((of_char c :: nat) = 32 \<or> (9 \<le> (of_char c :: nat) \<and> (of_char c :: nat) \<le> 13))"

text \<open>\<open>s.strip()\<close>: whitespace removed at both ends.\<close>

definition strip :: "string \<Rightarrow> string" where
  "strip s = rev (dropWhile isspace (rev (dropWhile isspace s)))"

text \<open>
  \<open>str(n)\<close> and \<open>"%d" % n\<close> for an integer: the decimal digits, most significant
  first, with a minus sign for a negative number.
\<close>

definition digit_char :: "nat \<Rightarrow> char" where
  "digit_char d = char_of (48 + d)"

definition digit_val :: "char \<Rightarrow> nat" where
  "digit_val c = of_char c - 48"

function str_nat :: "nat \<Rightarrow> string" where
  "str_nat n = (if n < 10 then [digit_char n] else str_nat (n div 10) @ [digit_char (n mod 10)])"
  by pat_completeness auto
termination
  by (relation "measure id") auto

declare str_nat.simps [simp del]

definition str_int :: "int \<Rightarrow> string" where
  "str_int n = (if n < 0 then CHR ''-'' # str_nat (nat (- n)) else str_nat (nat n))"

text \<open>
  \<open>int(s)\<close> for a byte string, base 10: surrounding whitespace is ignored, one sign
  may precede the digits, and there must be at least one digit and nothing else.
  Every other text raises \<open>ValueError\<close>.
\<close>

definition digits_val :: "string \<Rightarrow> nat" where
  "digits_val ds = foldl (\<lambda>a c. 10 * a + digit_val c) 0 ds"

definition is_digits :: "string \<Rightarrow> bool" where
  "is_digits ds = (ds \<noteq> [] \<and> list_all isdigit ds)"

definition int_of_str :: "string \<Rightarrow> error + int" where
  "int_of_str s =
     (case strip s of
        [] \<Rightarrow> Inl ValueError
      | c # r \<Rightarrow>
          if c = CHR ''-'' then (if is_digits r then Inr (- int (digits_val r)) else Inl ValueError)
          else if c = CHR ''+'' then (if is_digits r then Inr (int (digits_val r)) else Inl ValueError)
          else if is_digits (c # r) then Inr (int (digits_val (c # r)))
          else Inl ValueError)"

text \<open>\<open>s.split(sep)\<close> and \<open>sep.join(parts)\<close> for a one-character separator.\<close>

function split :: "char \<Rightarrow> string \<Rightarrow> string list" where
  "split sep s =
     (case dropWhile (\<lambda>c. c \<noteq> sep) s of
        [] \<Rightarrow> [takeWhile (\<lambda>c. c \<noteq> sep) s]
      | c # r \<Rightarrow> takeWhile (\<lambda>c. c \<noteq> sep) s # split sep r)"
  by pat_completeness auto
termination
proof (relation "measure (\<lambda>(sep, s). length s)")
  fix sep :: char and s :: string and c r
  assume "dropWhile (\<lambda>c. c \<noteq> sep) s = c # r"
  then have "length (c # r) \<le> length s"
    by (metis length_dropWhile_le)
  then show "((sep, r), (sep, s)) \<in> measure (\<lambda>(sep, s). length s)" by simp
qed simp

declare split.simps [simp del]

fun join :: "char \<Rightarrow> string list \<Rightarrow> string" where
  "join sep [] = []"
| "join sep [x] = x"
| "join sep (x # y # r) = x @ sep # join sep (y # r)"

text \<open>\<open>s.startswith(p)\<close>.\<close>

definition startswith :: "string \<Rightarrow> string \<Rightarrow> bool" where
  "startswith s p = (take (length p) s = p)"

text \<open>\<open>posixpath.basename(p)\<close>: what follows the last slash.\<close>

definition basename :: "string \<Rightarrow> string" where
  "basename p = rev (takeWhile (\<lambda>c. c \<noteq> CHR ''/'') (rev p))"

section \<open>Duration\<close>

text \<open>
  \<open>Duration.DIVIDERS\<close>, an ordered dictionary: the order of the entries is the order
  in which \<open>__str__\<close> tries them.
\<close>

definition Duration_DIVIDERS :: "(char \<times> int) list" where
  "Duration_DIVIDERS =
     [(CHR ''w'', 60 * 60 * 24 * 7),
      (CHR ''d'', 60 * 60 * 24),
      (CHR ''h'', 60 * 60),
      (CHR ''m'', 60),
      (CHR ''s'', 1)]"

text \<open>
  \<open>Duration.__str__\<close>: the loop over the dividers returns at the first one that
  divides the payload. A loop that ends without returning makes the method return \<open>None\<close>.
\<close>

fun Duration_str_loop :: "int \<Rightarrow> (char \<times> int) list \<Rightarrow> string option" where
  "Duration_str_loop time_secs [] = None"
| "Duration_str_loop time_secs ((label, divider) # rest) =
     (if time_secs mod divider = 0 then Some (str_int (time_secs div divider) @ [label])
      else Duration_str_loop time_secs rest)"

definition Duration_str :: "int \<Rightarrow> string option" where
  "Duration_str time_secs = Duration_str_loop time_secs Duration_DIVIDERS"

text \<open>
  \<open>Duration.ParseFromHumanReadable\<close>. The first argument is the payload before the
  call: an empty text returns at once and leaves it as it was. The result is the new
  payload. \<open>self.DIVIDERS[timestring[-1]]\<close> raises \<open>KeyError\<close> for a character that
  is no key, which the method turns into \<open>RuntimeError\<close>; \<open>ValueError\<close> of \<open>int\<close>
  becomes \<open>InitializeError\<close>.
\<close>

definition Duration_ParseFromHumanReadable :: "int \<Rightarrow> string \<Rightarrow> error + int" where
  "Duration_ParseFromHumanReadable old timestring =
     (if timestring = [] then Inr old
      else if isdigit (last timestring) then
        (case int_of_str timestring of
           Inr n \<Rightarrow> Inr (n * 1)
         | Inl e \<Rightarrow> if e = ValueError then Inl InitializeError else Inl e)
      else
        (case map_of Duration_DIVIDERS (last timestring) of
           None \<Rightarrow> Inl RuntimeError
         | Some multiplicator \<Rightarrow>
             (case int_of_str (butlast timestring) of
                Inr n \<Rightarrow> Inr (n * multiplicator)
              | Inl e \<Rightarrow> if e = ValueError then Inl InitializeError else Inl e)))"


section \<open>UTF-8\<close>

text \<open>
  A \<open>unicode\<close> text is a list of code points (a build with four-byte characters). The
  encoder writes a code point below \<open>0x80\<close> as one byte, below \<open>0x800\<close> as two, below
  \<open>0x10000\<close> as three and any other as four bytes; \<open>div\<close> and \<open>mod\<close> by powers of
  two stand for the shifts and masks. \<open>s.decode("utf-8")\<close> raises
  \<open>UnicodeDecodeError\<close> (here \<open>None\<close>) on a truncated sequence, a wrong continuation
  byte, an overlong form or a code point above \<open>0x10FFFF\<close>; the three bytes of a
  surrogate are decoded to it, as CPython 2.7 does.
\<close>

definition utf8_encode_char :: "nat \<Rightarrow> string" where
  "utf8_encode_char cp =
     (if cp < 0x80 then [char_of cp]
      else if cp < 0x800 then [char_of (0xC0 + cp div 64), char_of (0x80 + cp mod 64)]
      else if cp < 0x10000 then
        [char_of (0xE0 + cp div 4096), char_of (0x80 + cp div 64 mod 64), char_of (0x80 + cp mod 64)]
      else
        [char_of (0xF0 + cp div 262144), char_of (0x80 + cp div 4096 mod 64),
         char_of (0x80 + cp div 64 mod 64), char_of (0x80 + cp mod 64)])"

text \<open>
  \<open>u.encode("utf-8")\<close>, as CPython 2.7 does it: a high surrogate followed by a low
  surrogate is joined with it into the one code point that the pair stands for, which is
  written as four bytes; every other code point, a lone surrogate too, is written by
  itself.
\<close>

fun utf8_encode :: "nat list \<Rightarrow> string" where
  "utf8_encode [] = []"
| "utf8_encode [cp] = utf8_encode_char cp"
| "utf8_encode (cp # cp2 # rest) =
     (if 0xD800 \<le> cp \<and> cp \<le> 0xDBFF \<and> 0xDC00 \<le> cp2 \<and> cp2 \<le> 0xDFFF
      then utf8_encode_char (0x10000 + (cp - 0xD800) * 0x400 + (cp2 - 0xDC00)) @ utf8_encode rest
      else utf8_encode_char cp @ utf8_encode (cp2 # rest))"

definition is_cont :: "char \<Rightarrow> bool" where
  "is_cont c = (0x80 \<le> (of_char c :: nat) \<and> (of_char c :: nat) < 0xC0)"

definition cont_bits :: "char \<Rightarrow> nat" where
  "cont_bits c = of_char c - 0x80"

fun utf8_decode :: "string \<Rightarrow> nat list option" where
  "utf8_decode [] = Some []"
| "utf8_decode (c # cs) =
     (if (of_char c :: nat) < 0x80 then map_option (Cons (of_char c)) (utf8_decode cs)
      else if (of_char c :: nat) < 0xC2 then None
      else if (of_char c :: nat) < 0xE0 then
        (case cs of
           c1 # r \<Rightarrow>
             if is_cont c1
             then map_option (Cons ((of_char c - 0xC0) * 64 + cont_bits c1)) (utf8_decode r)
             else None
         | _ \<Rightarrow> None)
      else if (of_char c :: nat) < 0xF0 then
        (case cs of
           c1 # c2 # r \<Rightarrow>
             if is_cont c1 \<and> is_cont c2 \<and>
                0x800 \<le> (of_char c - 0xE0) * 4096 + cont_bits c1 * 64 + cont_bits c2
             then map_option (Cons ((of_char c - 0xE0) * 4096 + cont_bits c1 * 64 + cont_bits c2))
                    (utf8_decode r)
             else None
         | _ \<Rightarrow> None)
      else if (of_char c :: nat) < 0xF5 then
        (case cs of
           c1 # c2 # c3 # r \<Rightarrow>
             if is_cont c1 \<and> is_cont c2 \<and> is_cont c3 \<and>
                0x10000 \<le> (of_char c - 0xF0) * 262144 + cont_bits c1 * 4096 + cont_bits c2 * 64 + cont_bits c3 \<and>
                (of_char c - 0xF0) * 262144 + cont_bits c1 * 4096 + cont_bits c2 * 64 + cont_bits c3 < 0x110000
             then map_option
                    (Cons ((of_char c - 0xF0) * 262144 + cont_bits c1 * 4096 + cont_bits c2 * 64 + cont_bits c3))
                    (utf8_decode r)
             else None
         | _ \<Rightarrow> None)
      else None)"

section \<open>Floating-point numbers\<close>

text \<open>
  The magnitude of a floating-point number: \<open>Finite m e\<close> is the double \<open>m * 2 ^ e\<close>,
  \<open>Infinity\<close> is \<open>inf\<close>. The numbers that \<open>ByteSize.ParseFromHumanReadable\<close>
  computes are never negative and are magnitudes only.
  \<open>round_to_double p q\<close> is the double nearest to the fraction \<open>p / q\<close> (\<open>0 < q\<close>),
  a tie going to the even mantissa: 53 bits of mantissa, the exponent not below that of
  the subnormal numbers, and \<open>inf\<close> where the rounded value \<open>m * 2 ^ e\<close> reaches
  \<open>2 ^ 1024\<close>, that is where \<open>m\<close> has more than \<open>1024 - e\<close> bits.
\<close>

datatype double = Finite nat int | Infinity

function bit_length :: "nat \<Rightarrow> nat" where
  "bit_length n = (if n = 0 then 0 else Suc (bit_length (n div 2)))"
  by pat_completeness auto
termination
  by (relation "measure id") auto

declare bit_length.simps [simp del]

definition round_half_even :: "nat \<Rightarrow> nat \<Rightarrow> nat" where
  "round_half_even p q =
     (if 2 * (p mod q) < q then p div q
      else if q < 2 * (p mod q) then p div q + 1
      else if even (p div q) then p div q
      else p div q + 1)"

text \<open>\<open>floor_log2 p q\<close> is the largest \<open>k\<close> with \<open>2 ^ k \<le> p / q\<close>, for \<open>0 < p\<close> and \<open>0 < q\<close>.\<close>

definition floor_log2 :: "nat \<Rightarrow> nat \<Rightarrow> int" where
  "floor_log2 p q =
     (let d = int (bit_length p) - int (bit_length q)
      in if (if 0 \<le> d then q * 2 ^ nat d \<le> p else q \<le> p * 2 ^ nat (- d)) then d else d - 1)"

definition round_to_double :: "nat \<Rightarrow> nat \<Rightarrow> double" where
  "round_to_double p q =
     (if p = 0 then Finite 0 0
      else
        let e = max (floor_log2 p q - 52) (- 1074);
            m = (if 0 \<le> e then round_half_even p (q * 2 ^ nat e)
                 else round_half_even (p * 2 ^ nat (- e)) q)
        in if 1024 < int (bit_length m) + e then Infinity else Finite m e)"

text \<open>
  \<open>float(s)\<close> for a text \<open>s\<close> of digits and dots, which is all that the first group
  of \<open>ByteSize.REGEX\<close> can hold: digits with at most one dot and at least one digit;
  every other text raises \<open>ValueError\<close>. The result is never negative.
\<close>

definition float_of_str :: "string \<Rightarrow> error + double" where
  "float_of_str s =
     (let whole = takeWhile isdigit s
      in case dropWhile isdigit s of
           [] \<Rightarrow> if whole = [] then Inl ValueError else Inr (round_to_double (digits_val whole) 1)
         | c # frac \<Rightarrow>
             if c = CHR ''.'' \<and> list_all isdigit frac \<and> (whole \<noteq> [] \<or> frac \<noteq> [])
             then Inr (round_to_double (digits_val (whole @ frac)) (10 ^ length frac))
             else Inl ValueError)"

text \<open>
  \<open>x * k\<close> for a double \<open>x\<close> and a positive integer \<open>k\<close> that is itself a double (every
  multiplier of the table is), and \<open>int(x)\<close>, which cuts the fraction off and raises
  \<open>OverflowError\<close> for \<open>inf\<close>.
\<close>

fun double_mul :: "double \<Rightarrow> nat \<Rightarrow> double" where
  "double_mul Infinity k = Infinity"
| "double_mul (Finite m e) k =
     (if 0 \<le> e then round_to_double (m * k * 2 ^ nat e) 1
      else round_to_double (m * k) (2 ^ nat (- e)))"

fun int_of_double :: "double \<Rightarrow> error + int" where
  "int_of_double Infinity = Inl OverflowError"
| "int_of_double (Finite m e) =
     (if 0 \<le> e then Inr (int (m * 2 ^ nat e)) else Inr (int (m div 2 ^ nat (- e))))"

text \<open>
  A Python float is a magnitude with a sign (\<open>True\<close> for minus), or \<open>nan\<close>. A result
  that is zero is given the plus sign: nothing that the module does with a float
  (\<open>int\<close>, a comparison) tells the two zeros apart.
\<close>

datatype pyfloat = Signed bool double | NaN

definition signed_double :: "bool \<Rightarrow> double \<Rightarrow> pyfloat" where
  "signed_double negative d =
     (case d of
        Finite m e \<Rightarrow> Signed (negative \<and> m \<noteq> 0) (Finite m e)
      | Infinity \<Rightarrow> Signed negative Infinity)"

definition float_zero :: pyfloat where
  "float_zero = Signed False (Finite 0 0)"

definition float_one :: pyfloat where
  "float_one = Signed False (Finite 1 0)"

text \<open>\<open>round_dyadic n e\<close> is the double nearest to \<open>n * 2 ^ e\<close>.\<close>

definition round_dyadic :: "nat \<Rightarrow> int \<Rightarrow> double" where
  "round_dyadic n e =
     (if 0 \<le> e then round_to_double (n * 2 ^ nat e) 1 else round_to_double n (2 ^ nat (- e)))"

text \<open>
  The conversion of an integer to a float that mixed arithmetic makes: the nearest
  double, and \<open>OverflowError\<close> for an integer too large for any.
\<close>

definition float_of_int :: "int \<Rightarrow> error + pyfloat" where
  "float_of_int n =
     (case round_to_double (nat \<bar>n\<bar>) 1 of
        Infinity \<Rightarrow> Inl OverflowError
      | Finite m e \<Rightarrow> Inr (signed_double (n < 0) (Finite m e)))"

text \<open>
  \<open>x * y\<close>, \<open>x + y\<close> and \<open>x - y\<close> for floats: the exact result is rounded to the
  nearest double; a result too large is \<open>inf\<close>, and no exception is raised.
  \<open>exact_numerator negative m e e0\<close> is the integer \<open>k\<close> for which the float of sign
  \<open>negative\<close> and magnitude \<open>m * 2 ^ e\<close> is \<open>k * 2 ^ e0\<close>, where \<open>e0 \<le> e\<close>.
\<close>

fun float_mul :: "pyfloat \<Rightarrow> pyfloat \<Rightarrow> pyfloat" where
  "float_mul NaN y = NaN"
| "float_mul (Signed s1 d1) NaN = NaN"
| "float_mul (Signed s1 Infinity) (Signed s2 Infinity) = Signed (s1 \<noteq> s2) Infinity"
| "float_mul (Signed s1 Infinity) (Signed s2 (Finite m e)) =
     (if m = 0 then NaN else Signed (s1 \<noteq> s2) Infinity)"
| "float_mul (Signed s1 (Finite m e)) (Signed s2 Infinity) =
     (if m = 0 then NaN else Signed (s1 \<noteq> s2) Infinity)"
| "float_mul (Signed s1 (Finite m1 e1)) (Signed s2 (Finite m2 e2)) =
     signed_double (s1 \<noteq> s2) (round_dyadic (m1 * m2) (e1 + e2))"

definition exact_numerator :: "bool \<Rightarrow> nat \<Rightarrow> int \<Rightarrow> int \<Rightarrow> int" where
  "exact_numerator negative m e e0 =
     (if negative then - (int m * 2 ^ nat (e - e0)) else int m * 2 ^ nat (e - e0))"

fun float_add :: "pyfloat \<Rightarrow> pyfloat \<Rightarrow> pyfloat" where
  "float_add NaN y = NaN"
| "float_add (Signed s1 d1) NaN = NaN"
| "float_add (Signed s1 Infinity) (Signed s2 Infinity) = (if s1 = s2 then Signed s1 Infinity else NaN)"
| "float_add (Signed s1 Infinity) (Signed s2 (Finite m e)) = Signed s1 Infinity"
| "float_add (Signed s1 (Finite m e)) (Signed s2 Infinity) = Signed s2 Infinity"
| "float_add (Signed s1 (Finite m1 e1)) (Signed s2 (Finite m2 e2)) =
     (let e0 = min e1 e2;
          n = exact_numerator s1 m1 e1 e0 + exact_numerator s2 m2 e2 e0
      in signed_double (n < 0) (round_dyadic (nat \<bar>n\<bar>) e0))"

fun float_neg :: "pyfloat \<Rightarrow> pyfloat" where
  "float_neg NaN = NaN"
| "float_neg (Signed s d) = signed_double (\<not> s) d"

definition float_sub :: "pyfloat \<Rightarrow> pyfloat \<Rightarrow> pyfloat" where
  "float_sub x y = float_add x (float_neg y)"

text \<open>\<open>x <= y\<close> for floats: false when either is \<open>nan\<close>.\<close>

fun float_le :: "pyfloat \<Rightarrow> pyfloat \<Rightarrow> bool" where
  "float_le NaN y = False"
| "float_le (Signed s1 d1) NaN = False"
| "float_le (Signed s1 Infinity) (Signed s2 Infinity) = (s1 \<or> \<not> s2)"
| "float_le (Signed s1 Infinity) (Signed s2 (Finite m e)) = s1"
| "float_le (Signed s1 (Finite m e)) (Signed s2 Infinity) = (\<not> s2)"
| "float_le (Signed s1 (Finite m1 e1)) (Signed s2 (Finite m2 e2)) =
     (exact_numerator s1 m1 e1 (min e1 e2) \<le> exact_numerator s2 m2 e2 (min e1 e2))"

text \<open>
  \<open>int(x)\<close> for a float cuts the fraction off, towards zero; it raises
  \<open>ValueError\<close> for \<open>nan\<close> and \<open>OverflowError\<close> for an infinity.
\<close>

fun int_of_float :: "pyfloat \<Rightarrow> error + int" where
  "int_of_float NaN = Inl ValueError"
| "int_of_float (Signed negative d) =
     (case int_of_double d of
        Inl e \<Rightarrow> Inl e
      | Inr n \<Rightarrow> Inr (if negative then - n else n))"

text \<open>
  \<open>round(x)\<close> for a float, as Python 2 has it: the nearest integer, a tie going away
  from zero, returned as a float; \<open>nan\<close> and the infinities are returned as they are.
\<close>

fun round_float :: "pyfloat \<Rightarrow> pyfloat" where
  "round_float NaN = NaN"
| "round_float (Signed s Infinity) = Signed s Infinity"
| "round_float (Signed s (Finite m e)) =
     (if 0 \<le> e then Signed s (Finite m e)
      else signed_double s
             (round_to_double
                (if 2 ^ nat (- e) \<le> 2 * (m mod 2 ^ nat (- e))
                 then m div 2 ^ nat (- e) + 1 else m div 2 ^ nat (- e)) 1))"

text \<open>
  The float that a decimal literal denotes: \<open>float_of_ratio p q\<close> is the double nearest
  to \<open>p / q\<close>, as \<open>8.2\<close> is the one nearest to \<open>82 / 10\<close>.
\<close>

definition float_of_ratio :: "nat \<Rightarrow> nat \<Rightarrow> pyfloat" where
  "float_of_ratio p q = signed_double False (round_to_double p q)"

text \<open>A Python number: an integer or a float.\<close>

datatype number = PyInt int | PyFloat pyfloat

section \<open>Values\<close>

text \<open>
  The \<open>_age\<close> attribute holds what the constructor was given: a raw number, or an
  \<open>RDFDatetime\<close> instance, which is its payload and its own \<open>_age\<close>.
\<close>

datatype age = RawAge int | DatetimeAge int age

text \<open>
  An instance is its class, its payload (\<open>_value\<close>, or \<open>_string_urn\<close> for the URN
  classes) and its \<open>_age\<close>. \<open>RDFBool\<close> and \<open>ByteSize\<close> inherit the wire methods of
  \<open>RDFInteger\<close>; \<open>RDFDatetimeSeconds\<close> is \<open>RDFDatetime\<close> with another
  \<open>converter\<close>; \<open>SessionID\<close> inherits from \<open>RDFURN\<close>. Payloads of the integer
  classes are Python integers.
\<close>

datatype integer_class = RDFInteger | RDFBool | ByteSize

datatype instant_class = RDFDatetime | RDFDatetimeSeconds

datatype urn_class = RDFURN | SessionID

datatype rdfvalue =
    BytesValue string age
  | StringValue "nat list" age
  | IntegerValue integer_class int age
  | Instant instant_class int age
  | DurationValue int age
  | URN urn_class string age

datatype payload = Bytes string | Unicode "nat list" | Integer int | Path string

fun payload_of :: "rdfvalue \<Rightarrow> payload" where
  "payload_of (BytesValue s a) = Bytes s"
| "payload_of (StringValue u a) = Unicode u"
| "payload_of (IntegerValue c v a) = Integer v"
| "payload_of (Instant c v a) = Integer v"
| "payload_of (DurationValue v a) = Integer v"
| "payload_of (URN c p a) = Path p"

fun raw_age :: "rdfvalue \<Rightarrow> age" where
  "raw_age (BytesValue s a) = a"
| "raw_age (StringValue u a) = a"
| "raw_age (IntegerValue c v a) = a"
| "raw_age (Instant c v a) = a"
| "raw_age (DurationValue v a) = a"
| "raw_age (URN c p a) = a"

text \<open>\<open>v.__class__.__name__\<close>.\<close>

fun class_name :: "rdfvalue \<Rightarrow> string" where
  "class_name (BytesValue s a) = ''RDFBytes''"
| "class_name (StringValue u a) = ''RDFString''"
| "class_name (IntegerValue RDFInteger v a) = ''RDFInteger''"
| "class_name (IntegerValue RDFBool v a) = ''RDFBool''"
| "class_name (IntegerValue ByteSize v a) = ''ByteSize''"
| "class_name (Instant RDFDatetime v a) = ''RDFDatetime''"
| "class_name (Instant RDFDatetimeSeconds v a) = ''RDFDatetimeSeconds''"
| "class_name (DurationValue v a) = ''Duration''"
| "class_name (URN RDFURN p a) = ''RDFURN''"
| "class_name (URN SessionID p a) = ''SessionID''"

text \<open>
  What a constructor may be given as \<open>initializer\<close>: a Python integer, a string or
  an instance. \<open>None\<close> is the \<open>None\<close> of \<open>initializer option\<close>.
\<close>

datatype initializer = InitInt int | InitStr string | InitObj rdfvalue

text \<open>
  \<open>int(x)\<close> for an instance of \<open>RDFInteger\<close> or of one of its subclasses
  (\<open>__int__\<close>); \<open>None\<close> for an instance of another class.
\<close>

fun RDFInteger_int :: "rdfvalue \<Rightarrow> int option" where
  "RDFInteger_int (IntegerValue c v a) = Some v"
| "RDFInteger_int (Instant c v a) = Some v"
| "RDFInteger_int (DurationValue v a) = Some v"
| "RDFInteger_int (BytesValue s a) = None"
| "RDFInteger_int (StringValue u a) = None"
| "RDFInteger_int (URN c p a) = None"

text \<open>
  \<open>RDFValue.__init__\<close> sets \<open>_age\<close>: \<open>RDFValue_init\<close> is the value it stores. With
  no \<open>age\<close> that is \<open>RDFDatetime(age=0)\<close>, and \<open>RDFDatetime.__init__\<close> with
  \<open>initializer=None\<close> sets the payload to 0 and returns, its own age being the raw 0
  it was given; the clock is not read. The
  other thing the base constructor does, parsing the wire form of an initializer of the
  class of \<open>self\<close>, is part of the constructors below that hand their initializer on
  to it (\<open>RDFBytes\<close>, \<open>RDFInteger\<close>); the others hand on \<open>None\<close>.
\<close>

definition RDFValue_init :: "age option \<Rightarrow> age" where
  "RDFValue_init age = (case age of None \<Rightarrow> DatetimeAge 0 (RawAge 0) | Some a \<Rightarrow> a)"

text \<open>
  The \<open>age\<close> property: a stored value that is no \<open>RDFDatetime\<close> is wrapped as
  \<open>RDFDatetime(self._age, age=0)\<close>, an instance whose own age is the raw 0; a stored
  \<open>RDFDatetime\<close> is returned as it is.
\<close>

definition age_property :: "rdfvalue \<Rightarrow> rdfvalue" where
  "age_property v =
     (case raw_age v of
        RawAge n \<Rightarrow> Instant RDFDatetime n (RawAge 0)
      | DatetimeAge n own_age \<Rightarrow> Instant RDFDatetime n own_age)"

section \<open>RDFInteger\<close>

text \<open>
  \<open>RDFInteger.ParseFromString\<close> returns the new payload. The handler catches
  \<open>TypeError\<close> only; any other exception of \<open>int\<close> leaves the method as it is.
\<close>

definition RDFInteger_ParseFromString :: "string \<Rightarrow> error + int" where
  "RDFInteger_ParseFromString string =
     (if string = [] then Inr 0
      else (case int_of_str string of
              Inr n \<Rightarrow> Inr n
            | Inl e \<Rightarrow> if e = TypeError then Inl DecodeError else Inl e))"

definition RDFInteger_SerializeToString :: "int \<Rightarrow> string" where
  "RDFInteger_SerializeToString v = str_int v"

section \<open>RDFDatetime\<close>

definition MICROSECONDS :: int where
  "MICROSECONDS = 1000000"

fun converter :: "instant_class \<Rightarrow> int" where
  "converter RDFDatetime = MICROSECONDS"
| "converter RDFDatetimeSeconds = 1"

text \<open>\<open>RDFDatetime.__init__\<close>, for either class.\<close>

definition RDFDatetime_init :: "instant_class \<Rightarrow> initializer option \<Rightarrow> age option \<Rightarrow> error + rdfvalue" where
  "RDFDatetime_init cls initializer age =
     (case initializer of
        None \<Rightarrow> Inr (Instant cls 0 (RDFValue_init age))
      | Some (InitInt n) \<Rightarrow> Inr (Instant cls n (RDFValue_init age))
      | Some (InitObj x) \<Rightarrow>
          (case RDFInteger_int x of
             Some n \<Rightarrow> Inr (Instant cls n (RDFValue_init age))
           | None \<Rightarrow> Inl InitializeError)
      | Some (InitStr s) \<Rightarrow> Inl InitializeError)"

text \<open>
  \<open>RDFDatetime.Now\<close>; \<open>clock\<close> is what \<open>int(time.time() * MICROSECONDS)\<close> gives at
  the call.
\<close>

definition RDFDatetime_Now :: "int \<Rightarrow> error + rdfvalue" where
  "RDFDatetime_Now clock = RDFDatetime_init RDFDatetime (Some (InitInt clock)) None"

definition AsSecondsSinceEpoch :: "instant_class \<Rightarrow> int \<Rightarrow> int" where
  "AsSecondsSinceEpoch cls v = v div converter cls"


text \<open>
  The right operand of an arithmetic operator: a Python number or an instance. An
  operator method returns an instance, returns \<open>NotImplemented\<close>, or raises.
\<close>

datatype operand = Num number | Obj rdfvalue

datatype opresult = Result rdfvalue | NotImplemented | Raises error

fun as_opresult :: "error + rdfvalue \<Rightarrow> opresult" where
  "as_opresult (Inr v) = Result v"
| "as_opresult (Inl e) = Raises e"

text \<open>
  \<open>RDFDatetime.__init__\<close> with a float as initializer: the payload is \<open>int\<close> of the
  float.
\<close>

definition RDFDatetime_init_float :: "instant_class \<Rightarrow> pyfloat \<Rightarrow> age option \<Rightarrow> error + rdfvalue" where
  "RDFDatetime_init_float cls x age =
     (case int_of_float x of
        Inl e \<Rightarrow> Inl e
      | Inr n \<Rightarrow> Inr (Instant cls n (RDFValue_init age)))"

text \<open>\<open>Duration.__init__\<close>; \<open>RDFInteger.__init__(None, age)\<close> has set the payload to 0
  before the text of a string initializer is parsed.\<close>

definition Duration_init :: "initializer option \<Rightarrow> age option \<Rightarrow> error + rdfvalue" where
  "Duration_init initializer age =
     (case initializer of
        Some (InitObj (DurationValue d a)) \<Rightarrow> Inr (DurationValue d (RDFValue_init age))
      | Some (InitStr s) \<Rightarrow>
          (case Duration_ParseFromHumanReadable 0 s of
             Inr n \<Rightarrow> Inr (DurationValue n (RDFValue_init age))
           | Inl e \<Rightarrow> Inl e)
      | Some (InitInt n) \<Rightarrow> Inr (DurationValue n (RDFValue_init age))
      | Some (InitObj x) \<Rightarrow>
          (case RDFInteger_int x of
             Some n \<Rightarrow> Inr (DurationValue n (RDFValue_init age))
           | None \<Rightarrow> Inl InitializeError)
      | None \<Rightarrow> Inr (DurationValue 0 (RDFValue_init age)))"

text \<open>
  \<open>Duration.__mul__\<close> with an integer right operand, and the reflected
  \<open>RDFInteger.__radd__\<close> and \<open>RDFInteger.__rsub__\<close> that Python calls for
  \<open>n + d\<close> and \<open>n - d\<close> when \<open>n\<close> is an integer and \<open>d\<close> an instance.
\<close>

definition Duration_mul :: "int \<Rightarrow> int \<Rightarrow> error + rdfvalue" where
  "Duration_mul self_value other = Duration_init (Some (InitInt (self_value * other))) None"

definition RDFInteger_radd :: "int \<Rightarrow> int \<Rightarrow> int" where
  "RDFInteger_radd self_value other = self_value + other"

definition RDFInteger_rsub :: "int \<Rightarrow> int \<Rightarrow> int" where
  "RDFInteger_rsub self_value other = other - self_value"

text \<open>
  \<open>RDFDatetime.__add__\<close>, \<open>__sub__\<close> and \<open>__mul__\<close>; \<open>cls\<close> and \<open>v\<close> are the class
  and the payload of \<open>self\<close>. With a float operand the integers of the expression are
  converted to floats and the arithmetic is that of floats; the constructor then takes
  \<open>int\<close> of the result. With a \<open>Duration\<close> operand \<open>other * self.converter\<close> is
  \<open>Duration.__mul__\<close>, whose result is added to the integer payload by the reflected
  method; \<open>self._value * other\<close> is \<open>Duration.__rmul__\<close>, whose result the constructor
  converts with \<open>int\<close>.
\<close>

definition RDFDatetime_add :: "instant_class \<Rightarrow> int \<Rightarrow> operand \<Rightarrow> opresult" where
  "RDFDatetime_add cls v other =
     (case other of
        Num (PyInt n) \<Rightarrow> as_opresult (RDFDatetime_init cls (Some (InitInt (v + n * converter cls))) None)
      | Num (PyFloat x) \<Rightarrow>
          (case float_of_int (converter cls) of
             Inl e \<Rightarrow> Raises e
           | Inr c \<Rightarrow>
               (case float_of_int v of
                  Inl e \<Rightarrow> Raises e
                | Inr fv \<Rightarrow> as_opresult (RDFDatetime_init_float cls (float_add fv (float_mul x c)) None)))
      | Obj (DurationValue d a) \<Rightarrow>
          (case Duration_mul d (converter cls) of
             Inr scaled \<Rightarrow>
               (case RDFInteger_int scaled of
                  Some k \<Rightarrow> as_opresult (RDFDatetime_init cls (Some (InitInt (RDFInteger_radd k v))) None)
                | None \<Rightarrow> Raises TypeError)
           | Inl e \<Rightarrow> Raises e)
      | Obj x \<Rightarrow> NotImplemented)"

definition RDFDatetime_mul :: "instant_class \<Rightarrow> int \<Rightarrow> operand \<Rightarrow> opresult" where
  "RDFDatetime_mul cls v other =
     (case other of
        Num (PyInt n) \<Rightarrow> as_opresult (RDFDatetime_init cls (Some (InitInt (v * n))) None)
      | Num (PyFloat x) \<Rightarrow>
          (case float_of_int v of
             Inl e \<Rightarrow> Raises e
           | Inr fv \<Rightarrow> as_opresult (RDFDatetime_init_float cls (float_mul fv x) None))
      | Obj (DurationValue d a) \<Rightarrow>
          (case Duration_mul d v of
             Inr scaled \<Rightarrow> as_opresult (RDFDatetime_init cls (Some (InitObj scaled)) None)
           | Inl e \<Rightarrow> Raises e)
      | Obj x \<Rightarrow> NotImplemented)"

definition RDFDatetime_sub :: "instant_class \<Rightarrow> int \<Rightarrow> operand \<Rightarrow> opresult" where
  "RDFDatetime_sub cls v other =
     (case other of
        Num (PyInt n) \<Rightarrow> as_opresult (RDFDatetime_init cls (Some (InitInt (v - n * converter cls))) None)
      | Num (PyFloat x) \<Rightarrow>
          (case float_of_int (converter cls) of
             Inl e \<Rightarrow> Raises e
           | Inr c \<Rightarrow>
               (case float_of_int v of
                  Inl e \<Rightarrow> Raises e
                | Inr fv \<Rightarrow> as_opresult (RDFDatetime_init_float cls (float_sub fv (float_mul x c)) None)))
      | Obj (DurationValue d a) \<Rightarrow>
          (case Duration_mul d (converter cls) of
             Inr scaled \<Rightarrow>
               (case RDFInteger_int scaled of
                  Some k \<Rightarrow> as_opresult (RDFDatetime_init cls (Some (InitInt (RDFInteger_rsub k v))) None)
                | None \<Rightarrow> Raises TypeError)
           | Inl e \<Rightarrow> Raises e)
      | Obj (Instant cls' v' a) \<Rightarrow>
          as_opresult (Duration_init
            (Some (InitInt (AsSecondsSinceEpoch cls v - AsSecondsSinceEpoch cls' v'))) None)
      | Obj x \<Rightarrow> NotImplemented)"

text \<open>
  \<open>RDFDatetime.Lerp\<close>. \<open>Lerp_value\<close> is the expression
  \<open>round((1 - t) * start_time._value + t * end_time._value)\<close>: with an integer \<open>t\<close> the
  sum is an integer, which \<open>round\<close> converts to a float; with a float \<open>t\<close> the
  integer 1 and the two payloads are converted to floats (1 to \<open>float_one\<close>) and the
  arithmetic is that of floats. \<open>0.0 <= t <= 1.0\<close> is the conjunction of the two
  comparisons, each of a float with an integer or a float. The result is
  \<open>RDFDatetime\<close> of the rounded float, whatever the class of the two instants.
\<close>

fun zero_le_number :: "number \<Rightarrow> bool" where
  "zero_le_number (PyInt n) = (0 \<le> n)"
| "zero_le_number (PyFloat x) = float_le float_zero x"

fun number_le_one :: "number \<Rightarrow> bool" where
  "number_le_one (PyInt n) = (n \<le> 1)"
| "number_le_one (PyFloat x) = float_le x float_one"

fun Lerp_value :: "number \<Rightarrow> int \<Rightarrow> int \<Rightarrow> error + pyfloat" where
  "Lerp_value (PyInt n) start_value end_value =
     (case float_of_int ((1 - n) * start_value + n * end_value) of
        Inl e \<Rightarrow> Inl e
      | Inr as_float \<Rightarrow> Inr (round_float as_float))"
| "Lerp_value (PyFloat x) start_value end_value =
     (case float_of_int start_value of
        Inl e \<Rightarrow> Inl e
      | Inr fs \<Rightarrow>
          (case float_of_int end_value of
             Inl e \<Rightarrow> Inl e
           | Inr fe \<Rightarrow>
               Inr (round_float
                     (float_add (float_mul (float_sub float_one x) fs) (float_mul x fe)))))"

definition Lerp :: "number \<Rightarrow> operand \<Rightarrow> operand \<Rightarrow> error + rdfvalue" where
  "Lerp t start_time end_time =
     (case (start_time, end_time) of
        (Obj (Instant start_cls start_value start_age), Obj (Instant end_cls end_value end_age)) \<Rightarrow>
          if \<not> (zero_le_number t \<and> number_le_one t) then Inl ValueError
          else (case Lerp_value t start_value end_value of
                  Inl e \<Rightarrow> Inl e
                | Inr rounded \<Rightarrow> RDFDatetime_init_float RDFDatetime rounded None)
      | _ \<Rightarrow> Inl TypeError)"

section \<open>ByteSize\<close>

text \<open>\<open>s.lower()\<close> for a byte string.\<close>

definition lower_char :: "char \<Rightarrow> char" where
  "lower_char c =
     (if 65 \<le> (of_char c :: nat) \<and> (of_char c :: nat) \<le> 90 then char_of ((of_char c :: nat) + 32) else c)"

definition lower :: "string \<Rightarrow> string" where
  "lower s = map lower_char s"

definition ByteSize_DIVIDERS :: "(string \<times> nat) list" where
  "ByteSize_DIVIDERS =
     [('''', 1),
      (''k'', 1000),
      (''m'', 1000 ^ 2),
      (''g'', 1000 ^ 3),
      (''ki'', 1024),
      (''mi'', 1024 ^ 2),
      (''gi'', 1024 ^ 3)]"

text \<open>
  \<open>ByteSize.REGEX.match\<close>, the pattern \<^verbatim>\<open>^([0-9.]+)([kmgi]*)b?$\<close> compiled with
  \<open>re.I\<close>: the result is the pair of the two groups, or \<open>None\<close>. The three parts of
  the pattern share no character, so each takes the longest run it can; \<open>$\<close> matches
  at the end and before a newline that ends the text.
\<close>

definition re_coefficient_char :: "char \<Rightarrow> bool" where
  "re_coefficient_char c = (isdigit c \<or> c = CHR ''.'')"

definition re_multiplier_char :: "char \<Rightarrow> bool" where
  "re_multiplier_char c = (lower_char c \<in> set ''kmgi'')"

definition ByteSize_REGEX_match :: "string \<Rightarrow> (string \<times> string) option" where
  "ByteSize_REGEX_match s =
     (let group1 = takeWhile re_coefficient_char s;
          after1 = dropWhile re_coefficient_char s;
          group2 = takeWhile re_multiplier_char after1;
          after2 = dropWhile re_multiplier_char after1;
          after_b = (case after2 of [] \<Rightarrow> [] | c # t \<Rightarrow> if lower_char c = CHR ''b'' then t else after2)
      in if group1 \<noteq> [] \<and> (after_b = [] \<or> after_b = [CHR 0x0A]) then Some (group1, group2) else None)"

text \<open>
  \<open>ByteSize.ParseFromHumanReadable\<close>; the first argument is the payload before the
  call, the result the new payload.
\<close>

definition ByteSize_ParseFromHumanReadable :: "int \<Rightarrow> string \<Rightarrow> error + int" where
  "ByteSize_ParseFromHumanReadable old string =
     (if string = [] then Inr old
      else
        (case ByteSize_REGEX_match (lower (strip string)) of
           None \<Rightarrow> Inl DecodeError
         | Some (group1, group2) \<Rightarrow>
             (case map_of ByteSize_DIVIDERS group2 of
                None \<Rightarrow> Inl DecodeError
              | Some multiplier \<Rightarrow>
                  if multiplier = 0 then Inl DecodeError
                  else if CHR ''.'' \<in> set group1 then
                    (case float_of_str group1 of
                       Inl e \<Rightarrow> Inl e
                     | Inr x \<Rightarrow> int_of_double (double_mul x multiplier))
                  else
                    (case int_of_str group1 of
                       Inl e \<Rightarrow> Inl e
                     | Inr n \<Rightarrow> Inr (n * int multiplier)))))"

section \<open>RDFURN and SessionID\<close>

text \<open>
  Modelled from the spec: the scan that \<open>utils.NormalizePath\<close> makes over the segments
  of a path; the module \<open>utils\<close> is not among the sources. The spec describes the result
  as a normalized absolute path with no empty segment and with \<open>.\<close> and \<open>..\<close>
  resolved: the segments between slashes are taken from the left, empty ones and \<open>.\<close>
  are dropped, and \<open>..\<close> removes the segment kept last (none at the top).
\<close>

fun normalize_segments :: "string list \<Rightarrow> string list \<Rightarrow> string list" where
  "normalize_segments kept [] = rev kept"
| "normalize_segments kept (seg # rest) =
     (if seg = [] \<or> seg = ''.'' then normalize_segments kept rest
      else if seg = ''..'' then normalize_segments (case kept of [] \<Rightarrow> [] | last_kept # up \<Rightarrow> up) rest
      else normalize_segments (seg # kept) rest)"

text \<open>
  Modelled from the spec: \<open>utils.NormalizePath\<close>, missing from the sources like the rest
  of \<open>utils\<close>. The segments that the scan keeps are joined behind a leading slash, so
  the result is an absolute path. Of the same module, \<open>utils.SmartStr\<close> and
  \<open>utils.SmartUnicode\<close> leave a byte string as it is, and \<open>utils.AssertType\<close> raises
  \<open>TypeError\<close> for a value that is not of the type named.
\<close>

definition NormalizePath :: "string \<Rightarrow> string" where
  "NormalizePath path = CHR ''/'' # join CHR ''/'' (normalize_segments [] (split CHR ''/'' path))"

text \<open>\<open>RDFURN.ParseFromString\<close> returns the new \<open>_string_urn\<close>.\<close>

definition RDFURN_ParseFromString :: "string \<Rightarrow> string" where
  "RDFURN_ParseFromString initializer =
     NormalizePath (if startswith initializer ''aff4:/'' then drop 5 initializer else initializer)"

text \<open>\<open>RDFURN.__str__\<close>, which \<open>SerializeToString\<close> returns.\<close>

definition RDFURN_str :: "string \<Rightarrow> string" where
  "RDFURN_str string_urn = ''aff4:'' @ string_urn"

definition RDFURN_Basename :: "string \<Rightarrow> string" where
  "RDFURN_Basename string_urn = basename string_urn"

text \<open>
  \<open>RDFURN.__init__\<close>, also reached from \<open>SessionID.__init__\<close> through \<open>super\<close>, so
  the class of the new instance is a parameter. Another URN is copied without being
  parsed again; a string is parsed; an initializer with no \<open>startswith\<close> method makes
  \<open>ParseFromString\<close> raise \<open>AttributeError\<close>.
\<close>

definition RDFURN_init :: "urn_class \<Rightarrow> initializer option \<Rightarrow> age option \<Rightarrow> error + rdfvalue" where
  "RDFURN_init cls initializer age =
     (case initializer of
        Some (InitObj (URN c p a)) \<Rightarrow> Inr (URN cls p (RDFValue_init age))
      | None \<Rightarrow> Inr (URN cls [] (RDFValue_init age))
      | Some (InitStr s) \<Rightarrow> Inr (URN cls (RDFURN_ParseFromString s) (RDFValue_init age))
      | Some (InitInt n) \<Rightarrow> Inl AttributeError
      | Some (InitObj x) \<Rightarrow> Inl AttributeError)"

text \<open>
  \<open>SessionID.ValidateID\<close>: \<open>re.match\<close> of
  \<^verbatim>\<open>^[-0-9a-zA-Z]+:[0-9a-zA-Z]+(:[0-9a-zA-Z]+)?$\<close>. The colon belongs to neither
  character class, so each \<open>+\<close> takes the longest run of its class; \<open>$\<close> matches at the
  end of the text and also before a newline that ends it. The result is \<open>True\<close> where
  the method returns and \<open>False\<close> where it raises \<open>ValueError\<close>.
\<close>

definition re_alnum :: "char \<Rightarrow> bool" where
  "re_alnum c = (isdigit c \<or> (97 \<le> (of_char c :: nat) \<and> (of_char c :: nat) \<le> 122)
     \<or> (65 \<le> (of_char c :: nat) \<and> (of_char c :: nat) \<le> 90))"

definition re_queue_char :: "char \<Rightarrow> bool" where
  "re_queue_char c = (c = CHR ''-'' \<or> re_alnum c)"

definition before_final_newline :: "string \<Rightarrow> string" where
  "before_final_newline s = (if s \<noteq> [] \<and> last s = CHR 0x0A then butlast s else s)"

definition ValidateID :: "string \<Rightarrow> bool" where
  "ValidateID id_str =
     (let s = before_final_newline id_str;
          queue = takeWhile re_queue_char s;
          after_queue = dropWhile re_queue_char s
      in queue \<noteq> [] \<and>
         (case after_queue of
            [] \<Rightarrow> False
          | c # t \<Rightarrow>
              c = CHR '':'' \<and> takeWhile re_alnum t \<noteq> [] \<and>
              (case dropWhile re_alnum t of
                 [] \<Rightarrow> True
               | c' # t' \<Rightarrow> c' = CHR '':'' \<and> t' \<noteq> [] \<and> list_all re_alnum t')))"

text \<open>
  \<open>SessionID.__init__\<close> for an initializer that is not \<open>None\<close> (with \<open>None\<close> the
  constructor draws a random flow number and validates nothing). Only an initializer
  that is an \<open>RDFURN\<close> instance is validated; the \<open>ValueError\<close> of \<open>ValidateID\<close> is
  turned into \<open>InitializeError\<close>. Every initializer then goes to \<open>RDFURN.__init__\<close>.
\<close>

definition SessionID_init :: "initializer \<Rightarrow> age option \<Rightarrow> error + rdfvalue" where
  "SessionID_init initializer age =
     (case initializer of
        InitObj (URN c p a) \<Rightarrow>
          if ValidateID (RDFURN_Basename p)
          then RDFURN_init SessionID (Some initializer) age
          else Inl InitializeError
      | _ \<Rightarrow> RDFURN_init SessionID (Some initializer) age)"


section \<open>The wire form\<close>

text \<open>
  \<open>SerializeToString\<close> and \<open>ParseFromString\<close>, dispatched on the class of \<open>self\<close>.
  \<open>Duration.SerializeToString\<close> is \<open>str(self)\<close>, which raises \<open>TypeError\<close> when
  \<open>__str__\<close> returns \<open>None\<close>. \<open>ParseFromString\<close> returns \<open>self\<close> with its new
  payload; the age stays.
\<close>

fun SerializeToString :: "rdfvalue \<Rightarrow> error + string" where
  "SerializeToString (BytesValue s a) = Inr s"
| "SerializeToString (StringValue u a) = Inr (utf8_encode u)"
| "SerializeToString (IntegerValue c v a) = Inr (RDFInteger_SerializeToString v)"
| "SerializeToString (Instant c v a) = Inr (RDFInteger_SerializeToString v)"
| "SerializeToString (DurationValue v a) =
     (case Duration_str v of None \<Rightarrow> Inl TypeError | Some s \<Rightarrow> Inr s)"
| "SerializeToString (URN c p a) = Inr (RDFURN_str p)"

fun ParseFromString :: "rdfvalue \<Rightarrow> string \<Rightarrow> error + rdfvalue" where
  "ParseFromString (BytesValue s a) string = Inr (BytesValue string a)"
| "ParseFromString (StringValue u a) string =
     (case utf8_decode string of
        None \<Rightarrow> Inl UnicodeDecodeError
      | Some u' \<Rightarrow> Inr (StringValue u' a))"
| "ParseFromString (IntegerValue c v a) string =
     (case RDFInteger_ParseFromString string of
        Inl e \<Rightarrow> Inl e
      | Inr n \<Rightarrow> Inr (IntegerValue c n a))"
| "ParseFromString (Instant c v a) string =
     (case RDFInteger_ParseFromString string of
        Inl e \<Rightarrow> Inl e
      | Inr n \<Rightarrow> Inr (Instant c n a))"
| "ParseFromString (DurationValue v a) string =
     (case Duration_ParseFromHumanReadable v string of
        Inl e \<Rightarrow> Inl e
      | Inr n \<Rightarrow> Inr (DurationValue n a))"
| "ParseFromString (URN c p a) string = Inr (URN c (RDFURN_ParseFromString string) a)"

text \<open>
  \<open>RDFValue.Copy\<close>: \<open>res\<close> is the instance that \<open>self.__class__()\<close> has made.
\<close>

definition RDFValue_Copy :: "rdfvalue \<Rightarrow> rdfvalue \<Rightarrow> error + rdfvalue" where
  "RDFValue_Copy res self =
     (case SerializeToString self of
        Inl e \<Rightarrow> Inl e
      | Inr wire \<Rightarrow> ParseFromString res wire)"

section \<open>Constructors of the other classes\<close>

text \<open>
  \<open>RDFBytes.__init__\<close>: the base constructor re-parses an initializer of the same
  class; the payload is then parsed from the initializer itself if it is still empty,
  and \<open>utils.AssertType\<close> raises \<open>TypeError\<close> for anything but \<open>bytes\<close>.
\<close>

definition RDFBytes_init :: "initializer option \<Rightarrow> age option \<Rightarrow> error + rdfvalue" where
  "RDFBytes_init initializer age =
     (case initializer of
        None \<Rightarrow> Inr (BytesValue [] (RDFValue_init age))
      | Some (InitStr s) \<Rightarrow> Inr (BytesValue s (RDFValue_init age))
      | Some (InitObj (BytesValue s a)) \<Rightarrow>
          if s = [] then Inl TypeError else Inr (BytesValue s (RDFValue_init age))
      | Some (InitInt n) \<Rightarrow> Inl TypeError
      | Some (InitObj x) \<Rightarrow> Inl TypeError)"

text \<open>\<open>RDFString.__init__\<close>; a byte string is decoded by \<open>ParseFromString\<close>.\<close>

definition RDFString_init :: "initializer option \<Rightarrow> age option \<Rightarrow> error + rdfvalue" where
  "RDFString_init initializer age =
     (case initializer of
        Some (InitObj (StringValue u a)) \<Rightarrow> Inr (StringValue u (RDFValue_init age))
      | Some (InitStr s) \<Rightarrow> ParseFromString (StringValue [] (RDFValue_init age)) s
      | None \<Rightarrow> Inr (StringValue [] (RDFValue_init age))
      | Some (InitInt n) \<Rightarrow> Inl TypeError
      | Some (InitObj x) \<Rightarrow> Inl TypeError)"

text \<open>
  \<open>RDFInteger.__init__\<close>, which \<open>RDFBool\<close> inherits: an initializer of the class of
  \<open>self\<close> goes through the wire form in the base constructor, any other through
  \<open>int\<close>, which raises \<open>TypeError\<close> for an instance that has no \<open>__int__\<close>.
\<close>

definition RDFInteger_init :: "integer_class \<Rightarrow> initializer option \<Rightarrow> age option \<Rightarrow> error + rdfvalue" where
  "RDFInteger_init cls initializer age =
     (case initializer of
        None \<Rightarrow> Inr (IntegerValue cls 0 (RDFValue_init age))
      | Some (InitInt n) \<Rightarrow> Inr (IntegerValue cls n (RDFValue_init age))
      | Some (InitStr s) \<Rightarrow>
          (case int_of_str s of
             Inl e \<Rightarrow> Inl e
           | Inr n \<Rightarrow> Inr (IntegerValue cls n (RDFValue_init age)))
      | Some (InitObj x) \<Rightarrow>
          if class_name x = class_name (IntegerValue cls 0 (RDFValue_init age))
          then RDFValue_Copy (IntegerValue cls 0 (RDFValue_init age)) x
          else (case RDFInteger_int x of
                  Some n \<Rightarrow> Inr (IntegerValue cls n (RDFValue_init age))
                | None \<Rightarrow> Inl TypeError))"

text \<open>\<open>ByteSize.__init__\<close>.\<close>

definition ByteSize_init :: "initializer option \<Rightarrow> age option \<Rightarrow> error + rdfvalue" where
  "ByteSize_init initializer age =
     (case initializer of
        Some (InitObj (IntegerValue ByteSize v a)) \<Rightarrow> Inr (IntegerValue ByteSize v (RDFValue_init age))
      | Some (InitStr s) \<Rightarrow>
          (case ByteSize_ParseFromHumanReadable 0 s of
             Inl e \<Rightarrow> Inl e
           | Inr n \<Rightarrow> Inr (IntegerValue ByteSize n (RDFValue_init age)))
      | Some (InitInt n) \<Rightarrow> Inr (IntegerValue ByteSize n (RDFValue_init age))
      | Some (InitObj x) \<Rightarrow>
          (case RDFInteger_int x of
             Some n \<Rightarrow> Inr (IntegerValue ByteSize n (RDFValue_init age))
           | None \<Rightarrow> Inl InitializeError)
      | None \<Rightarrow> Inr (IntegerValue ByteSize 0 (RDFValue_init age)))"



text \<open>
  Instances are objects: a store holds the instances alive, and a reference is the
  place of one in it. A constructor call puts a new instance at a place that no
  reference had before; a method that changes \<open>self\<close> (\<open>ParseFromString\<close>, \<open>SetRaw\<close>,
  the setter of \<open>age\<close>, \<open>Update\<close>) replaces what the store holds at the place of
  \<open>self\<close> and nothing else. The payloads are immutable Python values, and the age
  that a constructor makes when none is given is a new \<open>RDFDatetime\<close>, so a new
  instance shares no part with another. An age that is passed to a constructor is
  stored as it is: an integer, or an instance that the caller holds, which is held
  here by its value.
\<close>

type_synonym store = "rdfvalue list"

definition lookup :: "store \<Rightarrow> nat \<Rightarrow> rdfvalue option" where
  "lookup st r = (if r < length st then Some (st ! r) else None)"

definition allocate :: "store \<Rightarrow> rdfvalue \<Rightarrow> store \<times> nat" where
  "allocate st v = (st @ [v], length st)"




section \<open>Predicates used in the statements\<close>

text \<open>
  The grammar that \<open>SessionID.ValidateID\<close> accepts, written out: \<open>queue:flow\<close> or
  \<open>queue:flow:suffix\<close>, where the queue is a non-empty text of letters, digits and
  hyphens and the flow and the suffix are non-empty texts of letters and digits.
\<close>

definition session_id_grammar :: "string \<Rightarrow> bool" where
  "session_id_grammar s =
     ((\<exists>queue flow. s = queue @ CHR '':'' # flow \<and>
         queue \<noteq> [] \<and> list_all re_queue_char queue \<and> flow \<noteq> [] \<and> list_all re_alnum flow) \<or>
      (\<exists>queue flow suffix. s = queue @ CHR '':'' # flow @ CHR '':'' # suffix \<and>
         queue \<noteq> [] \<and> list_all re_queue_char queue \<and> flow \<noteq> [] \<and> list_all re_alnum flow \<and>
         suffix \<noteq> [] \<and> list_all re_alnum suffix))"

text \<open>
  What may follow the two groups of \<open>ByteSize.REGEX\<close>: nothing or one \<open>b\<close> of either
  case, and then a single final newline or nothing.
\<close>

definition byte_size_tails :: "string list" where
  "byte_size_tails = [[], ''b'', ''B'', [CHR 0x0A], [CHR ''b'', CHR 0x0A], [CHR ''B'', CHR 0x0A]]"

text \<open>A path segment that normalization keeps.\<close>

definition kept_segment :: "string \<Rightarrow> bool" where
  "kept_segment seg = (seg \<noteq> [] \<and> seg \<noteq> ''.'' \<and> seg \<noteq> ''..'')"

text \<open>
  \<open>isinstance(x, RDFDatetime)\<close> for an argument of \<open>Lerp\<close>: an instance of
  \<open>RDFDatetime\<close> or of its subclass \<open>RDFDatetimeSeconds\<close>.
\<close>

fun isinstance_RDFDatetime :: "operand \<Rightarrow> bool" where
  "isinstance_RDFDatetime (Obj (Instant cls v a)) = True"
| "isinstance_RDFDatetime other = False"

section \<open>Decimal text of integers\<close>

lemma isdigit_digit_char: "d < 10 \<Longrightarrow> isdigit (digit_char d)"
  by (simp add: isdigit_def digit_char_def)

lemma digit_val_digit_char: "d < 10 \<Longrightarrow> digit_val (digit_char d) = d"
  by (simp add: digit_val_def digit_char_def)

lemma isdigit_not_space: "isdigit c \<Longrightarrow> \<not> isspace c"
  by (auto simp: isdigit_def isspace_def)

lemma isdigit_not_sign: "isdigit c \<Longrightarrow> c \<noteq> CHR ''-'' \<and> c \<noteq> CHR ''+''"
  by (auto simp: isdigit_def)

lemma str_nat_nonempty: "str_nat n \<noteq> []"
  by (subst str_nat.simps) simp

lemma str_nat_digits: "list_all isdigit (str_nat n)"
proof (induction n rule: str_nat.induct)
  case (1 n)
  show ?case
  proof (cases "n < 10")
    case True
    then show ?thesis by (subst str_nat.simps) (simp add: isdigit_digit_char)
  next
    case False
    with 1 show ?thesis by (subst str_nat.simps) (simp add: isdigit_digit_char)
  qed
qed

lemma digits_val_snoc: "digits_val (ds @ [c]) = 10 * digits_val ds + digit_val c"
  by (simp add: digits_val_def)

lemma digits_val_str_nat: "digits_val (str_nat n) = n"
proof (induction n rule: str_nat.induct)
  case (1 n)
  show ?case
  proof (cases "n < 10")
    case True
    then show ?thesis by (subst str_nat.simps) (simp add: digits_val_def digit_val_digit_char)
  next
    case False
    with 1 show ?thesis
      by (subst str_nat.simps) (simp add: digits_val_snoc digit_val_digit_char)
  qed
qed

lemma is_digits_str_nat: "is_digits (str_nat n)"
  by (simp add: is_digits_def str_nat_nonempty str_nat_digits)

lemma strip_id:
  assumes "s \<noteq> []" and "\<not> isspace (hd s)" and "\<not> isspace (last s)"
  shows "strip s = s"
proof -
  from assms have "dropWhile isspace s = s" by (cases s) auto
  moreover from assms have "dropWhile isspace (rev s) = rev s"
    by (cases "rev s") (auto simp: last_rev hd_rev)
  ultimately show ?thesis by (simp add: strip_def)
qed

lemma is_digits_hd_last: "is_digits s \<Longrightarrow> isdigit (hd s) \<and> isdigit (last s)"
  by (cases s) (auto simp: is_digits_def list_all_iff)

lemma int_of_str_digits:
  assumes "is_digits s"
  shows "int_of_str s = Inr (int (digits_val s))"
proof -
  from assms have ne: "s \<noteq> []" by (simp add: is_digits_def)
  from assms have hl: "isdigit (hd s)" "isdigit (last s)" using is_digits_hd_last by auto
  then have "strip s = s" using ne by (simp add: strip_id isdigit_not_space)
  with assms ne hl show ?thesis
    by (cases s) (auto simp: int_of_str_def dest: isdigit_not_sign)
qed

lemma int_of_str_minus_digits:
  assumes "is_digits s"
  shows "int_of_str (CHR ''-'' # s) = Inr (- int (digits_val s))"
proof -
  from assms have ne: "s \<noteq> []" by (simp add: is_digits_def)
  from assms have "isdigit (last s)" using is_digits_hd_last by auto
  then have "strip (CHR ''-'' # s) = CHR ''-'' # s"
    using ne by (intro strip_id) (auto dest: isdigit_not_space simp: isspace_def)
  with assms show ?thesis by (simp add: int_of_str_def)
qed

lemma int_of_str_str_int: "int_of_str (str_int n) = Inr n"
  by (simp add: str_int_def int_of_str_digits int_of_str_minus_digits is_digits_str_nat
      digits_val_str_nat)

lemma int_of_str_error: "int_of_str s = Inl e \<Longrightarrow> e = ValueError"
  by (auto simp: int_of_str_def split: list.splits if_splits)

lemma int_of_str_fails: "(\<forall>n. int_of_str s \<noteq> Inr n) \<Longrightarrow> int_of_str s = Inl ValueError"
  by (cases "int_of_str s") (auto dest: int_of_str_error)

lemma str_int_nonempty: "str_int n \<noteq> []"
  by (simp add: str_int_def str_nat_nonempty)

section \<open>Duration: canonical text and parse errors\<close>

text \<open>
  C10. For every integer payload (zero and negative ones too) \<open>Duration.__str__\<close>
  returns a text: the scan of the dividers in the order w, d, h, m, s stops at the
  latest at s, whose divider 1 divides every integer. The text is the count followed
  by the unit of a divider that divides the payload and that no other dividing
  divider exceeds.
\<close>

theorem Duration_str_defined:
  "\<exists>label divider.
     (label, divider) \<in> set Duration_DIVIDERS \<and> v mod divider = 0 \<and>
     (\<forall>(l, d) \<in> set Duration_DIVIDERS. v mod d = 0 \<longrightarrow> d \<le> divider) \<and>
     Duration_str v = Some (str_int (v div divider) @ [label])"
  by (simp add: Duration_str_def Duration_DIVIDERS_def)

theorem Duration_str_defined_witness:
  "Duration_str 3600 = Some ''1h'' \<and> Duration_str (- 7200) = Some ''-2h''"
proof -
  have e1: "str_int 1 = ''1''"
    by (simp add: str_int_def str_nat.simps digit_char_def char_of_def bit_Suc_0_iff)
  have e2: "str_int (- 2) = ''-2''"
    by (simp add: str_int_def str_nat.simps digit_char_def char_of_def bit_Suc_0_iff)
  have "Duration_str 3600 = Some ''1h''"
    using Duration_str_defined [of 3600] by (auto simp: Duration_DIVIDERS_def e1)
  moreover have "Duration_str (- 7200) = Some ''-2h''"
    using Duration_str_defined [of "- 7200"] by (auto simp: Duration_DIVIDERS_def e2)
  ultimately show ?thesis by simp
qed

text \<open>
  C8. A duration text whose last character is neither a digit nor one of the units
  w, d, h, m, s makes \<open>Duration.ParseFromHumanReadable\<close> raise \<open>RuntimeError\<close>, which
  is none of the module's error classes. A text whose numeric part \<open>int\<close> rejects,
  with no unit (the last character is a digit) or with one of the units, makes it
  raise \<open>InitializeError\<close>.
\<close>

theorem Duration_ParseFromHumanReadable_errors:
  "(timestring \<noteq> [] \<and> \<not> isdigit (last timestring) \<and> last timestring \<notin> set ''wdhms''
      \<longrightarrow> Duration_ParseFromHumanReadable old timestring = Inl RuntimeError) \<and>
   (timestring \<noteq> [] \<and> isdigit (last timestring) \<and> (\<forall>n. int_of_str timestring \<noteq> Inr n)
      \<longrightarrow> Duration_ParseFromHumanReadable old timestring = Inl InitializeError) \<and>
   (timestring \<noteq> [] \<and> last timestring \<in> set ''wdhms'' \<and>
      (\<forall>n. int_of_str (butlast timestring) \<noteq> Inr n)
      \<longrightarrow> Duration_ParseFromHumanReadable old timestring = Inl InitializeError)"
proof (intro conjI impI)
  assume "timestring \<noteq> [] \<and> \<not> isdigit (last timestring) \<and> last timestring \<notin> set ''wdhms''"
  then show "Duration_ParseFromHumanReadable old timestring = Inl RuntimeError"
    by (simp add: Duration_ParseFromHumanReadable_def Duration_DIVIDERS_def)
next
  assume a: "timestring \<noteq> [] \<and> isdigit (last timestring) \<and> (\<forall>n. int_of_str timestring \<noteq> Inr n)"
  then have "int_of_str timestring = Inl ValueError" by (simp add: int_of_str_fails)
  with a show "Duration_ParseFromHumanReadable old timestring = Inl InitializeError"
    by (simp add: Duration_ParseFromHumanReadable_def)
next
  assume a: "timestring \<noteq> [] \<and> last timestring \<in> set ''wdhms'' \<and>
    (\<forall>n. int_of_str (butlast timestring) \<noteq> Inr n)"
  then have f: "int_of_str (butlast timestring) = Inl ValueError" by (simp add: int_of_str_fails)
  from a have nd: "\<not> isdigit (last timestring)" by (auto simp: isdigit_def)
  from a have "\<exists>m. map_of Duration_DIVIDERS (last timestring) = Some m"
    by (auto simp: Duration_DIVIDERS_def)
  with a f nd show "Duration_ParseFromHumanReadable old timestring = Inl InitializeError"
    by (auto simp: Duration_ParseFromHumanReadable_def)
qed

theorem Duration_ParseFromHumanReadable_errors_witness:
  "Duration_ParseFromHumanReadable 0 ''9x'' = Inl RuntimeError \<and>
   Duration_ParseFromHumanReadable 0 ''a1'' = Inl InitializeError \<and>
   Duration_ParseFromHumanReadable 0 ''1.5h'' = Inl InitializeError"
proof -
  have h1: "''9x'' \<noteq> [] \<and> \<not> isdigit (last ''9x'') \<and> last ''9x'' \<notin> set ''wdhms''"
    by (simp add: isdigit_def)
  have "int_of_str ''a1'' = Inl ValueError"
    by (simp add: int_of_str_def strip_def isspace_def is_digits_def isdigit_def)
  then have h2: "''a1'' \<noteq> [] \<and> isdigit (last ''a1'') \<and> (\<forall>n. int_of_str ''a1'' \<noteq> Inr n)"
    by (simp add: isdigit_def)
  have "int_of_str ''1.5'' = Inl ValueError"
    by (simp add: int_of_str_def strip_def isspace_def is_digits_def isdigit_def)
  then have h3: "''1.5h'' \<noteq> [] \<and> last ''1.5h'' \<in> set ''wdhms'' \<and>
    (\<forall>n. int_of_str (butlast ''1.5h'') \<noteq> Inr n)"
    by simp
  from h1 h2 h3 Duration_ParseFromHumanReadable_errors [of "''9x''" 0]
    Duration_ParseFromHumanReadable_errors [of "''a1''" 0]
    Duration_ParseFromHumanReadable_errors [of "''1.5h''" 0]
  show ?thesis by blast
qed

section \<open>RDFInteger: malformed wire text\<close>

text \<open>
  C9. The claim is that a non-empty byte string that is no well-formed decimal
  integer makes \<open>RDFInteger.ParseFromString\<close> raise \<open>DecodeError\<close>. The method
  converts only \<open>TypeError\<close> into \<open>DecodeError\<close>, and \<open>int\<close> rejects a malformed text
  with \<open>ValueError\<close>: what the method raises for such a text is the plain
  \<open>ValueError\<close>.
\<close>

theorem RDFInteger_ParseFromString_malformed:
  "string \<noteq> [] \<Longrightarrow> (\<forall>n. int_of_str string \<noteq> Inr n) \<Longrightarrow>
   RDFInteger_ParseFromString string = Inl ValueError"
  by (simp add: RDFInteger_ParseFromString_def int_of_str_fails)

theorem RDFInteger_ParseFromString_malformed_witness:
  "RDFInteger_ParseFromString ''abc'' = Inl ValueError \<and>
   RDFInteger_ParseFromString ''abc'' \<noteq> Inl DecodeError"
proof -
  have "int_of_str ''abc'' = Inl ValueError"
    by (simp add: int_of_str_def strip_def isspace_def is_digits_def isdigit_def)
  then have h: "\<forall>n. int_of_str ''abc'' \<noteq> Inr n" by simp
  have "''abc'' \<noteq> []" by simp
  from RDFInteger_ParseFromString_malformed [OF this h] show ?thesis by simp
qed

section \<open>Floating-point arithmetic on given numbers\<close>

lemmas double_eval = round_to_double_def floor_log2_def bit_length.simps round_half_even_def Let_def
  round_dyadic_def signed_double_def exact_numerator_def float_of_ratio_def float_of_int_def
  float_sub_def float_one_def float_zero_def

lemma bit_length_pow2: "bit_length (2 ^ k) = Suc k"
proof (induction k)
  case 0
  show ?case by (simp add: bit_length.simps)
next
  case (Suc k)
  have "bit_length (2 ^ Suc k) = Suc (bit_length (2 ^ k))"
    by (subst bit_length.simps) simp
  with Suc show ?case by simp
qed

lemma float_of_int_overflow: "float_of_int (2 ^ 1024) = Inl OverflowError"
  by (simp add: round_to_double_def floor_log2_def round_half_even_def Let_def float_of_int_def
      bit_length_pow2 [of 1024, simplified] bit_length_pow2 [of 52, simplified]
      bit_length_pow2 [of 0, simplified])

lemma float_of_int_MICROSECONDS:
  "float_of_int MICROSECONDS = Inr (Signed False (Finite 8589934592000000 (- 33)))"
  by (simp add: MICROSECONDS_def double_eval)

lemma float_of_int_1: "float_of_int 1 = Inr (Signed False (Finite 4503599627370496 (- 52)))"
  by (simp add: double_eval)

lemma float_of_int_converter: "\<exists>fc. float_of_int (converter cls) = Inr fc"
  by (cases cls) (simp_all add: float_of_int_MICROSECONDS float_of_int_1)

lemma float_of_int_0: "float_of_int 0 = Inr (Signed False (Finite 0 0))"
  by (simp add: double_eval)

lemma float_of_int_3: "float_of_int 3 = Inr (Signed False (Finite 6755399441055744 (- 51)))"
  by (simp add: double_eval)

lemma float_of_int_10_seconds:
  "float_of_int 10000000 = Inr (Signed False (Finite 5368709120000000 (- 29)))"
  by (simp add: double_eval)

lemma float_8_2: "float_of_ratio 82 10 = Signed False (Finite 4616189618054758 (- 49))"
  by (simp add: double_eval)

lemma float_2_5: "float_of_ratio 5 2 = Signed False (Finite 5629499534213120 (- 51))"
  by (simp add: double_eval)

lemma float_0_5: "float_of_ratio 1 2 = Signed False (Finite 4503599627370496 (- 53))"
  by (simp add: double_eval)

lemma float_1_5_signed: "float_of_ratio 3 2 = Signed False (Finite 6755399441055744 (- 52))"
  by (simp add: double_eval)

lemma mul_8_2_MICROSECONDS:
  "float_mul (Signed False (Finite 4616189618054758 (- 49)))
     (Signed False (Finite 8589934592000000 (- 33))) =
   Signed False (Finite 8804682956799999 (- 30))"
  by (simp add: double_eval)

lemma add_0_8_2_seconds:
  "float_add (Signed False (Finite 0 0)) (Signed False (Finite 8804682956799999 (- 30))) =
   Signed False (Finite 8804682956799999 (- 30))"
  by (simp add: double_eval)

lemma sub_0_8_2_seconds:
  "float_sub (Signed False (Finite 0 0)) (Signed False (Finite 8804682956799999 (- 30))) =
   Signed True (Finite 8804682956799999 (- 30))"
  by (simp add: double_eval)

lemma mul_3_2_5:
  "float_mul (Signed False (Finite 6755399441055744 (- 51)))
     (Signed False (Finite 5629499534213120 (- 51))) =
   Signed False (Finite 8444249301319680 (- 50))"
  by (simp add: double_eval)

lemma int_of_float_examples:
  "int_of_float (Signed False (Finite 8804682956799999 (- 30))) = Inr 8199999"
  "int_of_float (Signed True (Finite 8804682956799999 (- 30))) = Inr (- 8199999)"
  "int_of_float (Signed False (Finite 8444249301319680 (- 50))) = Inr 7"
  "int_of_float (Signed False (Finite 5368709120000000 (- 30))) = Inr 5000000"
  by simp_all

lemma float_le_0_5:
  "float_le float_zero (Signed False (Finite 4503599627370496 (- 53)))"
  "float_le (Signed False (Finite 4503599627370496 (- 53))) float_one"
  by (simp_all add: double_eval)

lemma not_float_le_1_5: "\<not> float_le (Signed False (Finite 6755399441055744 (- 52))) float_one"
  by (simp add: double_eval)

lemma sub_1_0_5:
  "float_sub float_one (Signed False (Finite 4503599627370496 (- 53))) =
   Signed False (Finite 4503599627370496 (- 53))"
  by (simp add: double_eval)

lemma Lerp_value_0_5:
  "Lerp_value (PyFloat (Signed False (Finite 4503599627370496 (- 53)))) 0 10000000 =
   Inr (Signed False (Finite 5368709120000000 (- 30)))"
  by (simp add: float_of_int_0 float_of_int_10_seconds sub_1_0_5
        del: float_mul.simps float_add.simps round_float.simps)
     (simp add: double_eval)

section \<open>Integers that a float holds exactly\<close>

lemma bit_length_bounds: "0 < n \<Longrightarrow> 2 ^ (bit_length n - 1) \<le> n \<and> n < 2 ^ bit_length n"
proof (induction n rule: bit_length.induct)
  case (1 n)
  show ?case
  proof (cases "n div 2 = 0")
    case True
    with 1(2) have n1: "n = 1" by presburger
    have "bit_length (Suc 0 div 2) = 0" by (subst bit_length.simps) simp
    then have "bit_length 1 = 1" by (subst bit_length.simps) simp
    with n1 show ?thesis by simp
  next
    case False
    then have pos: "0 < n div 2" by simp
    from 1(2) have nz: "n \<noteq> 0" by simp
    from 1(1) [OF nz pos] have ih: "2 ^ (bit_length (n div 2) - 1) \<le> n div 2"
      "n div 2 < 2 ^ bit_length (n div 2)" by simp_all
    have bl: "bit_length n = Suc (bit_length (n div 2))"
      using nz by (subst bit_length.simps) simp
    have bpos: "0 < bit_length (n div 2)"
      using pos by (subst bit_length.simps) simp
    from ih(1) have "2 * 2 ^ (bit_length (n div 2) - 1) \<le> n" by linarith
    moreover from bpos have "2 * 2 ^ (bit_length (n div 2) - 1) = (2::nat) ^ bit_length (n div 2)"
      by (cases "bit_length (n div 2)") simp_all
    ultimately have lo: "2 ^ (bit_length n - 1) \<le> n" by (simp add: bl)
    from ih(2) have "n < 2 * 2 ^ bit_length (n div 2)" by linarith
    then have hi: "n < 2 ^ bit_length n" by (simp add: bl)
    from lo hi show ?thesis by simp
  qed
qed

lemma bit_length_shift: "0 < n \<Longrightarrow> bit_length (n * 2 ^ k) = bit_length n + k"
proof (induction k)
  case 0
  show ?case by simp
next
  case (Suc k)
  have "bit_length (n * 2 ^ Suc k) = Suc (bit_length (n * 2 ^ Suc k div 2))"
    using Suc.prems by (subst bit_length.simps) simp
  also have "n * 2 ^ Suc k div 2 = n * 2 ^ k" by simp
  finally show ?case using Suc by simp
qed

lemma bit_length_1: "bit_length (Suc 0) = Suc 0"
proof -
  have "bit_length (Suc 0 div 2) = 0" by (subst bit_length.simps) simp
  then show ?thesis by (subst bit_length.simps) simp
qed

lemma bit_length_pos: "0 < n \<Longrightarrow> 0 < bit_length n"
  by (subst bit_length.simps) simp

lemma bit_length_le_53: "0 < n \<Longrightarrow> n < 2 ^ 53 \<Longrightarrow> bit_length n \<le> 53"
proof -
  assume a: "0 < n" "n < 2 ^ 53"
  from bit_length_bounds [OF a(1)] a(2) have "(2::nat) ^ (bit_length n - 1) < 2 ^ 53" by linarith
  then have "bit_length n - 1 < 53" by (simp only: power_strict_increasing_iff [of 2] one_less_numeral_iff semiring_norm)
  then show ?thesis by simp
qed

lemma round_to_double_exact:
  assumes "0 < n" "n < 2 ^ 53"
  shows "round_to_double n 1 = Finite (n * 2 ^ (53 - bit_length n)) (int (bit_length n) - 53)"
proof -
  define b where "b = bit_length n"
  from assms have b53: "b \<le> 53" unfolding b_def by (rule bit_length_le_53)
  from assms(1) have bpos: "0 < b" unfolding b_def by (rule bit_length_pos)
  from bit_length_bounds [OF assms(1)] have lo: "2 ^ (b - 1) \<le> n" unfolding b_def by simp
  have fl: "floor_log2 n 1 = int b - 1"
    using lo bpos by (simp add: floor_log2_def Let_def bit_length_1 b_def [symmetric] nat_diff_distrib')
  have e: "max (floor_log2 n 1 - 52) (- 1074) = int b - 53" using fl b53 by simp
  have bm: "bit_length (n * 2 ^ (53 - b)) = 53"
    using bit_length_shift [OF assms(1), of "53 - b"] b53 by (simp add: b_def)
  show ?thesis
  proof (cases "b = 53")
    case True
    then show ?thesis using assms bm e
      by (simp add: round_to_double_def Let_def round_half_even_def b_def [symmetric])
  next
    case False
    with b53 have lt: "int b - 53 < 0" by simp
    have n: "nat (53 - int b) = 53 - b" by simp
    show ?thesis using assms bm e lt n b53
      by (simp add: round_to_double_def Let_def round_half_even_def b_def [symmetric])
  qed
qed

lemma int_round_float_of_int:
  assumes "\<bar>v\<bar> < 2 ^ 53"
  shows "\<exists>f. float_of_int v = Inr f \<and> round_float f = f \<and> int_of_float f = Inr v"
proof (cases "v = 0")
  case True
  then show ?thesis
    by (simp add: float_of_int_def round_to_double_def signed_double_def)
next
  case False
  define n where "n = nat \<bar>v\<bar>"
  define b where "b = bit_length n"
  from False assms have n: "0 < n" "n < 2 ^ 53" unfolding n_def by (simp_all add: nat_less_iff)
  from n have b53: "b \<le> 53" unfolding b_def by (rule bit_length_le_53)
  note rd = round_to_double_exact [OF n, folded b_def]
  from n have mz: "n * 2 ^ (53 - b) \<noteq> 0" by simp
  have f: "float_of_int v = Inr (Signed (v < 0) (Finite (n * 2 ^ (53 - b)) (int b - 53)))"
    using rd mz by (simp add: float_of_int_def signed_double_def n_def [symmetric])
  have vn: "(if v < 0 then - int n else int n) = v" unfolding n_def by simp
  show ?thesis
  proof (cases "b = 53")
    case True
    then show ?thesis using f vn by simp
  next
    case False
    with b53 have lt: "\<not> 0 \<le> int b - 53" by simp
    have k: "nat (53 - int b) = 53 - b" by simp
    have r: "round_float (Signed (v < 0) (Finite (n * 2 ^ (53 - b)) (int b - 53))) =
        Signed (v < 0) (Finite (n * 2 ^ (53 - b)) (int b - 53))"
      using lt k rd mz by (simp add: signed_double_def)
    have i: "int_of_float (Signed (v < 0) (Finite (n * 2 ^ (53 - b)) (int b - 53))) = Inr v"
      using lt k vn by simp
    from f r i show ?thesis by simp
  qed
qed

section \<open>RDFDatetime: arithmetic\<close>

lemma RDFDatetime_init_int:
  "RDFDatetime_init cls (Some (InitInt n)) None = Inr (Instant cls n (DatetimeAge 0 (RawAge 0)))"
  by (simp add: RDFDatetime_init_def RDFValue_init_def)

lemma Duration_init_int:
  "Duration_init (Some (InitInt n)) None = Inr (DurationValue n (DatetimeAge 0 (RawAge 0)))"
  by (simp add: Duration_init_def RDFValue_init_def)

lemma instant_arithmetic_int:
  "RDFDatetime_add cls v (Num (PyInt n)) = Result (Instant cls (v + n * converter cls) (DatetimeAge 0 (RawAge 0))) \<and>
   RDFDatetime_add cls v (Obj (DurationValue d a)) =
     Result (Instant cls (v + d * converter cls) (DatetimeAge 0 (RawAge 0))) \<and>
   RDFDatetime_sub cls v (Num (PyInt n)) = Result (Instant cls (v - n * converter cls) (DatetimeAge 0 (RawAge 0))) \<and>
   RDFDatetime_sub cls v (Obj (DurationValue d a)) =
     Result (Instant cls (v - d * converter cls) (DatetimeAge 0 (RawAge 0))) \<and>
   RDFDatetime_sub cls v (Obj (Instant cls' v' a')) =
     Result (DurationValue (v div converter cls - v' div converter cls') (DatetimeAge 0 (RawAge 0))) \<and>
   RDFDatetime_mul cls v (Num (PyInt n)) = Result (Instant cls (v * n) (DatetimeAge 0 (RawAge 0))) \<and>
   RDFDatetime_mul cls v (Obj (DurationValue d a)) = Result (Instant cls (v * d) (DatetimeAge 0 (RawAge 0))) \<and>
   converter RDFDatetime = 1000000 \<and> converter RDFDatetimeSeconds = 1 \<and>
   RDFDatetime_sub RDFDatetime (20 * 1000000) (Obj (Instant RDFDatetime (5 * 1000000) a')) =
     Result (DurationValue 15 (DatetimeAge 0 (RawAge 0))) \<and>
   RDFDatetime_sub RDFDatetime v (Num (PyInt 5)) = Result (Instant RDFDatetime (v - 5 * 1000000) (DatetimeAge 0 (RawAge 0)))"
  by (simp add: RDFDatetime_add_def RDFDatetime_sub_def RDFDatetime_mul_def RDFDatetime_init_int
      Duration_init_int Duration_mul_def RDFInteger_radd_def RDFInteger_rsub_def
      AsSecondsSinceEpoch_def MICROSECONDS_def RDFDatetime_init_def RDFValue_init_def
      mult.commute)

lemma instant_arithmetic_float:
  "(float_of_int (converter cls) = Inr fc \<and> float_of_int v = Inr fv \<longrightarrow>
      (int_of_float (float_add fv (float_mul x fc)) = Inr k1 \<longrightarrow>
         RDFDatetime_add cls v (Num (PyFloat x)) = Result (Instant cls k1 (DatetimeAge 0 (RawAge 0)))) \<and>
      (int_of_float (float_add fv (float_mul x fc)) = Inl e \<longrightarrow>
         RDFDatetime_add cls v (Num (PyFloat x)) = Raises e) \<and>
      (int_of_float (float_sub fv (float_mul x fc)) = Inr k2 \<longrightarrow>
         RDFDatetime_sub cls v (Num (PyFloat x)) = Result (Instant cls k2 (DatetimeAge 0 (RawAge 0)))) \<and>
      (int_of_float (float_sub fv (float_mul x fc)) = Inl e \<longrightarrow>
         RDFDatetime_sub cls v (Num (PyFloat x)) = Raises e) \<and>
      (int_of_float (float_mul fv x) = Inr k3 \<longrightarrow>
         RDFDatetime_mul cls v (Num (PyFloat x)) = Result (Instant cls k3 (DatetimeAge 0 (RawAge 0)))) \<and>
      (int_of_float (float_mul fv x) = Inl e \<longrightarrow>
         RDFDatetime_mul cls v (Num (PyFloat x)) = Raises e)) \<and>
   (float_of_int v = Inl e \<longrightarrow>
      RDFDatetime_add cls v (Num (PyFloat x)) = Raises e \<and>
      RDFDatetime_sub cls v (Num (PyFloat x)) = Raises e \<and>
      RDFDatetime_mul cls v (Num (PyFloat x)) = Raises e)"
  using float_of_int_converter [of cls]
  by (auto simp: RDFDatetime_add_def RDFDatetime_sub_def RDFDatetime_mul_def
      RDFDatetime_init_float_def RDFValue_init_def)

text \<open>
  C5. For an instant with payload \<open>v\<close>, a number and a \<open>Duration\<close> of \<open>d\<close> seconds:
  addition and subtraction take the operand as seconds and multiply it by the
  converter of the instant's class before they change the payload; the difference of
  two instants is a \<open>Duration\<close> of the difference of their whole seconds since the
  epoch; multiplication scales the payload itself. With an integer \<open>n\<close> the
  arithmetic is that of integers. With a float \<open>x\<close> the converter and the payload are
  converted to floats, the arithmetic is that of floats, and the new payload is \<open>int\<close>
  of the result, which cuts the fraction off and raises for \<open>nan\<close> and the infinities;
  a payload too large for a float raises \<open>OverflowError\<close>; the converter of either
  class is a float exactly. The instant of 20 seconds minus the instant of 5 seconds
  is the \<open>Duration\<close> of 15 seconds, and an instant minus 5 is the instant 5 seconds
  earlier.
\<close>

theorem RDFDatetime_arithmetic:
  "(RDFDatetime_add cls v (Num (PyInt n)) = Result (Instant cls (v + n * converter cls) (DatetimeAge 0 (RawAge 0))) \<and>
    RDFDatetime_add cls v (Obj (DurationValue d a)) =
      Result (Instant cls (v + d * converter cls) (DatetimeAge 0 (RawAge 0))) \<and>
    RDFDatetime_sub cls v (Num (PyInt n)) = Result (Instant cls (v - n * converter cls) (DatetimeAge 0 (RawAge 0))) \<and>
    RDFDatetime_sub cls v (Obj (DurationValue d a)) =
      Result (Instant cls (v - d * converter cls) (DatetimeAge 0 (RawAge 0))) \<and>
    RDFDatetime_sub cls v (Obj (Instant cls' v' a')) =
      Result (DurationValue (v div converter cls - v' div converter cls') (DatetimeAge 0 (RawAge 0))) \<and>
    RDFDatetime_mul cls v (Num (PyInt n)) = Result (Instant cls (v * n) (DatetimeAge 0 (RawAge 0))) \<and>
    RDFDatetime_mul cls v (Obj (DurationValue d a)) = Result (Instant cls (v * d) (DatetimeAge 0 (RawAge 0))) \<and>
    converter RDFDatetime = 1000000 \<and> converter RDFDatetimeSeconds = 1 \<and>
    RDFDatetime_sub RDFDatetime (20 * 1000000) (Obj (Instant RDFDatetime (5 * 1000000) a')) =
      Result (DurationValue 15 (DatetimeAge 0 (RawAge 0))) \<and>
    RDFDatetime_sub RDFDatetime v (Num (PyInt 5)) = Result (Instant RDFDatetime (v - 5 * 1000000) (DatetimeAge 0 (RawAge 0)))) \<and>
   (float_of_int (converter cls) = Inr fc \<and> float_of_int v = Inr fv \<longrightarrow>
      (int_of_float (float_add fv (float_mul x fc)) = Inr k1 \<longrightarrow>
         RDFDatetime_add cls v (Num (PyFloat x)) = Result (Instant cls k1 (DatetimeAge 0 (RawAge 0)))) \<and>
      (int_of_float (float_add fv (float_mul x fc)) = Inl e \<longrightarrow>
         RDFDatetime_add cls v (Num (PyFloat x)) = Raises e) \<and>
      (int_of_float (float_sub fv (float_mul x fc)) = Inr k2 \<longrightarrow>
         RDFDatetime_sub cls v (Num (PyFloat x)) = Result (Instant cls k2 (DatetimeAge 0 (RawAge 0)))) \<and>
      (int_of_float (float_sub fv (float_mul x fc)) = Inl e \<longrightarrow>
         RDFDatetime_sub cls v (Num (PyFloat x)) = Raises e) \<and>
      (int_of_float (float_mul fv x) = Inr k3 \<longrightarrow>
         RDFDatetime_mul cls v (Num (PyFloat x)) = Result (Instant cls k3 (DatetimeAge 0 (RawAge 0)))) \<and>
      (int_of_float (float_mul fv x) = Inl e \<longrightarrow>
         RDFDatetime_mul cls v (Num (PyFloat x)) = Raises e)) \<and>
   (float_of_int v = Inl e \<longrightarrow>
      RDFDatetime_add cls v (Num (PyFloat x)) = Raises e \<and>
      RDFDatetime_sub cls v (Num (PyFloat x)) = Raises e \<and>
      RDFDatetime_mul cls v (Num (PyFloat x)) = Raises e) \<and>
   (\<exists>c. float_of_int (converter cls) = Inr c)"
  using instant_arithmetic_int [of cls v n d a cls' v' a']
    instant_arithmetic_float [of cls fc v fv x k1 e k2 k3]
    float_of_int_converter [of cls]
  by blast

theorem RDFDatetime_arithmetic_witness:
  "RDFDatetime_add RDFDatetime 0 (Num (PyFloat (float_of_ratio 82 10))) =
     Result (Instant RDFDatetime 8199999 (DatetimeAge 0 (RawAge 0))) \<and>
   RDFDatetime_sub RDFDatetime 0 (Num (PyFloat (float_of_ratio 82 10))) =
     Result (Instant RDFDatetime (- 8199999) (DatetimeAge 0 (RawAge 0))) \<and>
   RDFDatetime_mul RDFDatetime 3 (Num (PyFloat (float_of_ratio 5 2))) =
     Result (Instant RDFDatetime 7 (DatetimeAge 0 (RawAge 0))) \<and>
   RDFDatetime_add RDFDatetime (2 ^ 1024) (Num (PyFloat (float_of_ratio 82 10))) =
     Raises OverflowError"
proof -
  have fc: "float_of_int (converter RDFDatetime) = Inr (Signed False (Finite 8589934592000000 (- 33)))"
    by (simp add: float_of_int_MICROSECONDS)
  have a: "int_of_float (float_add (Signed False (Finite 0 0))
      (float_mul (float_of_ratio 82 10) (Signed False (Finite 8589934592000000 (- 33))))) = Inr 8199999"
    by (simp only: float_8_2 mul_8_2_MICROSECONDS add_0_8_2_seconds int_of_float_examples)
  have s: "int_of_float (float_sub (Signed False (Finite 0 0))
      (float_mul (float_of_ratio 82 10) (Signed False (Finite 8589934592000000 (- 33))))) = Inr (- 8199999)"
    by (simp only: float_8_2 mul_8_2_MICROSECONDS sub_0_8_2_seconds int_of_float_examples)
  have m: "int_of_float (float_mul (Signed False (Finite 6755399441055744 (- 51))) (float_of_ratio 5 2)) = Inr 7"
    by (simp only: float_2_5 mul_3_2_5 int_of_float_examples)
  from RDFDatetime_arithmetic [where cls = RDFDatetime and v = 0 and x = "float_of_ratio 82 10"
      and fc = "Signed False (Finite 8589934592000000 (- 33))" and fv = "Signed False (Finite 0 0)"
      and ?k1.0 = 8199999 and ?k2.0 = "- 8199999"] fc float_of_int_0 a s
  have r1: "RDFDatetime_add RDFDatetime 0 (Num (PyFloat (float_of_ratio 82 10))) =
     Result (Instant RDFDatetime 8199999 (DatetimeAge 0 (RawAge 0)))"
    and r2: "RDFDatetime_sub RDFDatetime 0 (Num (PyFloat (float_of_ratio 82 10))) =
     Result (Instant RDFDatetime (- 8199999) (DatetimeAge 0 (RawAge 0)))"
    by blast+
  from RDFDatetime_arithmetic [where cls = RDFDatetime and v = 3 and x = "float_of_ratio 5 2"
      and fc = "Signed False (Finite 8589934592000000 (- 33))"
      and fv = "Signed False (Finite 6755399441055744 (- 51))" and ?k3.0 = 7] fc float_of_int_3 m
  have r3: "RDFDatetime_mul RDFDatetime 3 (Num (PyFloat (float_of_ratio 5 2))) =
     Result (Instant RDFDatetime 7 (DatetimeAge 0 (RawAge 0)))"
    by blast
  from RDFDatetime_arithmetic [where cls = RDFDatetime and v = "2 ^ 1024" and x = "float_of_ratio 82 10"
      and e = OverflowError] float_of_int_overflow
  have r4: "RDFDatetime_add RDFDatetime (2 ^ 1024) (Num (PyFloat (float_of_ratio 82 10))) =
     Raises OverflowError"
    by blast
  from r1 r2 r3 r4 show ?thesis by blast
qed

section \<open>RDFDatetime: interpolation\<close>

text \<open>
  As the spec states it, C6 fails on the code: an instant may hold any integer, and one
  whose payload is too large for a float makes the product with the float
  \<open>1 - t\<close> raise \<open>OverflowError\<close>, which is neither of the two errors of the claim,
  and nothing is returned. \<open>Lerp(0.5, RDFDatetime(2 ** 1024), RDFDatetime(0))\<close> does so.
\<close>

theorem Lerp_counterexample:
  "RDFDatetime_init RDFDatetime (Some (InitInt (2 ^ 1024))) None =
     Inr (Instant RDFDatetime (2 ^ 1024) (DatetimeAge 0 (RawAge 0))) \<and>
   RDFDatetime_init RDFDatetime (Some (InitInt 0)) None =
     Inr (Instant RDFDatetime 0 (DatetimeAge 0 (RawAge 0))) \<and>
   zero_le_number (PyFloat (float_of_ratio 1 2)) \<and>
   number_le_one (PyFloat (float_of_ratio 1 2)) \<and>
   Lerp (PyFloat (float_of_ratio 1 2))
     (Obj (Instant RDFDatetime (2 ^ 1024) (DatetimeAge 0 (RawAge 0))))
     (Obj (Instant RDFDatetime 0 (DatetimeAge 0 (RawAge 0)))) = Inl OverflowError"
proof -
  have "Lerp_value (PyFloat (float_of_ratio 1 2)) (2 ^ 1024) 0 = Inl OverflowError"
    by (simp only: Lerp_value.simps float_of_int_overflow sum.case)
  then show ?thesis
    by (simp only: Lerp_def RDFDatetime_init_int float_0_5 zero_le_number.simps
        number_le_one.simps float_le_0_5 prod.case operand.case rdfvalue.case simp_thms
        if_False sum.case)
qed

text \<open>
  C6, amended. \<open>Lerp(t, start, end)\<close> raises \<open>TypeError\<close> unless \<open>start\<close> and \<open>end\<close>
  are both instants; for two instants and a number \<open>t\<close> it raises \<open>ValueError\<close>
  unless \<open>0.0 <= t <= 1.0\<close>; otherwise it raises \<open>OverflowError\<close> when an integer
  of the expression is too large for a float, and else returns the \<open>RDFDatetime\<close>
  whose payload is \<open>int(round((1 - t) * start + t * end))\<close> on the payloads: with a
  float \<open>t\<close> the payloads are converted to floats and the arithmetic is that of
  floats, with an integer \<open>t\<close> the sum is an integer, which \<open>round\<close> converts to a
  float. An integer \<open>t = 0\<close> gives the payload of \<open>start\<close> and \<open>t = 1\<close> that of
  \<open>end\<close>, for a payload below \<open>2 ^ 53\<close> in magnitude. With the instants of 0 and of 10
  seconds, \<open>t = 0.5\<close> gives the instant of 5 seconds and \<open>t = 1.5\<close> raises
  \<open>ValueError\<close>.
\<close>

theorem Lerp_cases:
  "(\<not> (isinstance_RDFDatetime start_time \<and> isinstance_RDFDatetime end_time) \<longrightarrow>
      Lerp t start_time end_time = Inl TypeError) \<and>
   (\<not> (zero_le_number t \<and> number_le_one t) \<longrightarrow>
      Lerp t (Obj (Instant start_cls start_value start_age)) (Obj (Instant end_cls end_value end_age)) =
        Inl ValueError) \<and>
   (float_le float_zero x \<and> float_le x float_one \<longrightarrow>
      (float_of_int start_value = Inr fs \<and> float_of_int end_value = Inr fe \<and>
       int_of_float (round_float (float_add (float_mul (float_sub float_one x) fs) (float_mul x fe))) = Inr k \<longrightarrow>
         Lerp (PyFloat x) (Obj (Instant start_cls start_value start_age))
           (Obj (Instant end_cls end_value end_age)) =
         Inr (Instant RDFDatetime k (DatetimeAge 0 (RawAge 0)))) \<and>
      (float_of_int start_value = Inr fs \<and> float_of_int end_value = Inr fe \<and>
       int_of_float (round_float (float_add (float_mul (float_sub float_one x) fs) (float_mul x fe))) = Inl e \<longrightarrow>
         Lerp (PyFloat x) (Obj (Instant start_cls start_value start_age))
           (Obj (Instant end_cls end_value end_age)) =
         Inl e) \<and>
      (float_of_int start_value = Inl OverflowError \<or> float_of_int end_value = Inl OverflowError \<longrightarrow>
         Lerp (PyFloat x) (Obj (Instant start_cls start_value start_age))
           (Obj (Instant end_cls end_value end_age)) =
         Inl OverflowError)) \<and>
   (0 \<le> n \<and> n \<le> 1 \<longrightarrow>
      (float_of_int ((1 - n) * start_value + n * end_value) = Inr f \<and>
       int_of_float (round_float f) = Inr k \<longrightarrow>
         Lerp (PyInt n) (Obj (Instant start_cls start_value start_age))
           (Obj (Instant end_cls end_value end_age)) =
         Inr (Instant RDFDatetime k (DatetimeAge 0 (RawAge 0)))) \<and>
      (float_of_int ((1 - n) * start_value + n * end_value) = Inl OverflowError \<longrightarrow>
         Lerp (PyInt n) (Obj (Instant start_cls start_value start_age))
           (Obj (Instant end_cls end_value end_age)) =
         Inl OverflowError)) \<and>
   (\<bar>start_value\<bar> < 2 ^ 53 \<longrightarrow>
      Lerp (PyInt 0) (Obj (Instant start_cls start_value start_age))
        (Obj (Instant end_cls end_value end_age)) =
      Inr (Instant RDFDatetime start_value (DatetimeAge 0 (RawAge 0)))) \<and>
   (\<bar>end_value\<bar> < 2 ^ 53 \<longrightarrow>
      Lerp (PyInt 1) (Obj (Instant start_cls start_value start_age))
        (Obj (Instant end_cls end_value end_age)) =
      Inr (Instant RDFDatetime end_value (DatetimeAge 0 (RawAge 0))))"
proof -
  have t: "\<not> (isinstance_RDFDatetime start_time \<and> isinstance_RDFDatetime end_time) \<longrightarrow>
      Lerp t start_time end_time = Inl TypeError"
    by (cases start_time rule: isinstance_RDFDatetime.cases;
        cases end_time rule: isinstance_RDFDatetime.cases) (simp_all add: Lerp_def)
  have v: "\<not> (zero_le_number t \<and> number_le_one t) \<longrightarrow>
      Lerp t (Obj (Instant start_cls start_value start_age)) (Obj (Instant end_cls end_value end_age)) =
        Inl ValueError"
    by (simp add: Lerp_def)
  have r: "float_le float_zero x \<and> float_le x float_one \<longrightarrow>
      (float_of_int start_value = Inr fs \<and> float_of_int end_value = Inr fe \<and>
       int_of_float (round_float (float_add (float_mul (float_sub float_one x) fs) (float_mul x fe))) = Inr k \<longrightarrow>
         Lerp (PyFloat x) (Obj (Instant start_cls start_value start_age))
           (Obj (Instant end_cls end_value end_age)) =
         Inr (Instant RDFDatetime k (DatetimeAge 0 (RawAge 0)))) \<and>
      (float_of_int start_value = Inr fs \<and> float_of_int end_value = Inr fe \<and>
       int_of_float (round_float (float_add (float_mul (float_sub float_one x) fs) (float_mul x fe))) = Inl e \<longrightarrow>
         Lerp (PyFloat x) (Obj (Instant start_cls start_value start_age))
           (Obj (Instant end_cls end_value end_age)) =
         Inl e) \<and>
      (float_of_int start_value = Inl OverflowError \<or> float_of_int end_value = Inl OverflowError \<longrightarrow>
         Lerp (PyFloat x) (Obj (Instant start_cls start_value start_age))
           (Obj (Instant end_cls end_value end_age)) =
         Inl OverflowError)"
    by (auto simp: Lerp_def RDFDatetime_init_float_def RDFValue_init_def float_of_int_def
        split: sum.splits double.splits)
  have i: "0 \<le> n \<and> n \<le> 1 \<longrightarrow>
      (float_of_int ((1 - n) * start_value + n * end_value) = Inr f \<and>
       int_of_float (round_float f) = Inr k \<longrightarrow>
         Lerp (PyInt n) (Obj (Instant start_cls start_value start_age))
           (Obj (Instant end_cls end_value end_age)) =
         Inr (Instant RDFDatetime k (DatetimeAge 0 (RawAge 0)))) \<and>
      (float_of_int ((1 - n) * start_value + n * end_value) = Inl OverflowError \<longrightarrow>
         Lerp (PyInt n) (Obj (Instant start_cls start_value start_age))
           (Obj (Instant end_cls end_value end_age)) =
         Inl OverflowError)"
    by (simp add: Lerp_def RDFDatetime_init_float_def RDFValue_init_def)
  have s: "\<bar>start_value\<bar> < 2 ^ 53 \<longrightarrow>
      Lerp (PyInt 0) (Obj (Instant start_cls start_value start_age))
        (Obj (Instant end_cls end_value end_age)) =
      Inr (Instant RDFDatetime start_value (DatetimeAge 0 (RawAge 0)))"
  proof
    assume "\<bar>start_value\<bar> < 2 ^ 53"
    from int_round_float_of_int [OF this] obtain f where
      "float_of_int start_value = Inr f" "round_float f = f" "int_of_float f = Inr start_value"
      by blast
    then show "Lerp (PyInt 0) (Obj (Instant start_cls start_value start_age))
        (Obj (Instant end_cls end_value end_age)) =
      Inr (Instant RDFDatetime start_value (DatetimeAge 0 (RawAge 0)))"
      by (simp add: Lerp_def RDFDatetime_init_float_def RDFValue_init_def)
  qed
  have e: "\<bar>end_value\<bar> < 2 ^ 53 \<longrightarrow>
      Lerp (PyInt 1) (Obj (Instant start_cls start_value start_age))
        (Obj (Instant end_cls end_value end_age)) =
      Inr (Instant RDFDatetime end_value (DatetimeAge 0 (RawAge 0)))"
  proof
    assume "\<bar>end_value\<bar> < 2 ^ 53"
    from int_round_float_of_int [OF this] obtain f where
      "float_of_int end_value = Inr f" "round_float f = f" "int_of_float f = Inr end_value"
      by blast
    then show "Lerp (PyInt 1) (Obj (Instant start_cls start_value start_age))
        (Obj (Instant end_cls end_value end_age)) =
      Inr (Instant RDFDatetime end_value (DatetimeAge 0 (RawAge 0)))"
      by (simp add: Lerp_def RDFDatetime_init_float_def RDFValue_init_def)
  qed
  from t v r i s e show ?thesis by blast
qed

theorem Lerp_cases_witness:
  "Lerp (PyFloat (float_of_ratio 1 2)) (Obj (Instant RDFDatetime 0 (DatetimeAge 0 (RawAge 0))))
     (Obj (Instant RDFDatetime 10000000 (DatetimeAge 0 (RawAge 0)))) =
     Inr (Instant RDFDatetime 5000000 (DatetimeAge 0 (RawAge 0))) \<and>
   Lerp (PyFloat (float_of_ratio 3 2)) (Obj (Instant RDFDatetime 0 (DatetimeAge 0 (RawAge 0))))
     (Obj (Instant RDFDatetime 10000000 (DatetimeAge 0 (RawAge 0)))) = Inl ValueError \<and>
   Lerp (PyFloat (float_of_ratio 1 2)) (Num (PyInt 0))
     (Obj (Instant RDFDatetime 10000000 (DatetimeAge 0 (RawAge 0)))) = Inl TypeError \<and>
   Lerp (PyInt 1) (Obj (Instant RDFDatetime 0 (DatetimeAge 0 (RawAge 0))))
     (Obj (Instant RDFDatetime 10000000 (DatetimeAge 0 (RawAge 0)))) =
     Inr (Instant RDFDatetime 10000000 (DatetimeAge 0 (RawAge 0)))"
proof -
  have le: "float_le float_zero (float_of_ratio 1 2) \<and> float_le (float_of_ratio 1 2) float_one"
    by (simp only: float_0_5 float_le_0_5)
  have k: "int_of_float (round_float (float_add
      (float_mul (float_sub float_one (float_of_ratio 1 2)) (Signed False (Finite 0 0)))
      (float_mul (float_of_ratio 1 2) (Signed False (Finite 5368709120000000 (- 29)))))) = Inr 5000000"
    using Lerp_value_0_5
    by (simp only: float_0_5 Lerp_value.simps float_of_int_0 float_of_int_10_seconds sum.case
        sum.inject int_of_float_examples)
  from Lerp_cases [where x = "float_of_ratio 1 2" and start_value = 0 and end_value = 10000000
      and fs = "Signed False (Finite 0 0)" and fe = "Signed False (Finite 5368709120000000 (- 29))"
      and k = 5000000 and start_cls = RDFDatetime and end_cls = RDFDatetime
      and start_age = "DatetimeAge 0 (RawAge 0)" and end_age = "DatetimeAge 0 (RawAge 0)"]
    le float_of_int_0 float_of_int_10_seconds k
  have r1: "Lerp (PyFloat (float_of_ratio 1 2)) (Obj (Instant RDFDatetime 0 (DatetimeAge 0 (RawAge 0))))
     (Obj (Instant RDFDatetime 10000000 (DatetimeAge 0 (RawAge 0)))) =
     Inr (Instant RDFDatetime 5000000 (DatetimeAge 0 (RawAge 0)))"
    by blast
  have n: "\<not> (zero_le_number (PyFloat (float_of_ratio 3 2)) \<and> number_le_one (PyFloat (float_of_ratio 3 2)))"
    using not_float_le_1_5 by (simp only: float_1_5_signed number_le_one.simps simp_thms)
  from Lerp_cases [where t = "PyFloat (float_of_ratio 3 2)" and start_value = 0 and end_value = 10000000
      and start_cls = RDFDatetime and end_cls = RDFDatetime
      and start_age = "DatetimeAge 0 (RawAge 0)" and end_age = "DatetimeAge 0 (RawAge 0)"] n
  have r2: "Lerp (PyFloat (float_of_ratio 3 2)) (Obj (Instant RDFDatetime 0 (DatetimeAge 0 (RawAge 0))))
     (Obj (Instant RDFDatetime 10000000 (DatetimeAge 0 (RawAge 0)))) = Inl ValueError"
    by blast
  have i: "\<not> (isinstance_RDFDatetime (Num (PyInt 0)) \<and>
      isinstance_RDFDatetime (Obj (Instant RDFDatetime 10000000 (DatetimeAge 0 (RawAge 0)))))"
    by simp
  from Lerp_cases [where t = "PyFloat (float_of_ratio 1 2)" and start_time = "Num (PyInt 0)"
      and end_time = "Obj (Instant RDFDatetime 10000000 (DatetimeAge 0 (RawAge 0)))"] i
  have r3: "Lerp (PyFloat (float_of_ratio 1 2)) (Num (PyInt 0))
     (Obj (Instant RDFDatetime 10000000 (DatetimeAge 0 (RawAge 0)))) = Inl TypeError"
    by blast
  have b: "\<bar>10000000 :: int\<bar> < 2 ^ 53" by simp
  from Lerp_cases [where start_value = 0 and end_value = 10000000
      and start_cls = RDFDatetime and end_cls = RDFDatetime
      and start_age = "DatetimeAge 0 (RawAge 0)" and end_age = "DatetimeAge 0 (RawAge 0)"] b
  have r4: "Lerp (PyInt 1) (Obj (Instant RDFDatetime 0 (DatetimeAge 0 (RawAge 0))))
     (Obj (Instant RDFDatetime 10000000 (DatetimeAge 0 (RawAge 0)))) =
     Inr (Instant RDFDatetime 10000000 (DatetimeAge 0 (RawAge 0)))"
    by blast
  from r1 r2 r3 r4 show ?thesis by blast
qed

section \<open>The default age\<close>

lemma ParseFromString_age: "ParseFromString res wire = Inr v \<Longrightarrow> raw_age v = raw_age res"
  by (cases res) (auto split: option.splits sum.splits)

lemma RDFValue_Copy_age: "RDFValue_Copy res self = Inr v \<Longrightarrow> raw_age v = raw_age res"
  by (auto simp: RDFValue_Copy_def split: sum.splits dest: ParseFromString_age)

lemma RDFBytes_init_age: "RDFBytes_init i age = Inr v \<Longrightarrow> raw_age v = RDFValue_init age"
  by (auto simp: RDFBytes_init_def split: option.splits initializer.splits rdfvalue.splits if_splits)

lemma RDFString_init_age: "RDFString_init i age = Inr v \<Longrightarrow> raw_age v = RDFValue_init age"
  by (auto simp: RDFString_init_def split: option.splits initializer.splits rdfvalue.splits if_splits)

lemma RDFInteger_init_age: "RDFInteger_init c i age = Inr v \<Longrightarrow> raw_age v = RDFValue_init age"
  by (auto simp: RDFInteger_init_def split: option.splits initializer.splits sum.splits if_splits
      dest: RDFValue_Copy_age)

lemma ByteSize_init_age: "ByteSize_init i age = Inr v \<Longrightarrow> raw_age v = RDFValue_init age"
  by (auto simp: ByteSize_init_def
      split: option.splits initializer.splits rdfvalue.splits integer_class.splits sum.splits)

lemma RDFDatetime_init_age: "RDFDatetime_init t i age = Inr v \<Longrightarrow> raw_age v = RDFValue_init age"
  by (auto simp: RDFDatetime_init_def split: option.splits initializer.splits)

lemma Duration_init_age: "Duration_init i age = Inr v \<Longrightarrow> raw_age v = RDFValue_init age"
  by (auto simp: Duration_init_def
      split: option.splits initializer.splits rdfvalue.splits sum.splits)

lemma RDFURN_init_age: "RDFURN_init u i age = Inr v \<Longrightarrow> raw_age v = RDFValue_init age"
  by (auto simp: RDFURN_init_def split: option.splits initializer.splits rdfvalue.splits)

lemma SessionID_init_age: "SessionID_init j age = Inr v \<Longrightarrow> raw_age v = RDFValue_init age"
  by (auto simp: SessionID_init_def split: initializer.splits rdfvalue.splits if_splits
      dest: RDFURN_init_age)

text \<open>
  C4. The claim is that a value constructed with no \<open>age\<close> argument has the current
  time as its age. Every constructor hands \<open>age=None\<close> to \<open>RDFValue.__init__\<close>, which
  stores \<open>RDFDatetime(age=0)\<close>: the age that is read is the instant with payload 0,
  the epoch, whatever the clock shows, while \<open>RDFDatetime.Now\<close> at clock reading
  \<open>clock\<close> has payload \<open>clock\<close>.
\<close>

theorem default_age_is_epoch:
  assumes "RDFBytes_init i None = Inr v \<or> RDFString_init i None = Inr v \<or>
   RDFInteger_init c i None = Inr v \<or> ByteSize_init i None = Inr v \<or>
   RDFDatetime_init t i None = Inr v \<or> Duration_init i None = Inr v \<or>
   RDFURN_init u i None = Inr v \<or> SessionID_init j None = Inr v"
  shows "age_property v = Instant RDFDatetime 0 (RawAge 0) \<and>
       RDFDatetime_Now clock = Inr (Instant RDFDatetime clock (DatetimeAge 0 (RawAge 0)))"
proof -
  from assms have "raw_age v = RDFValue_init None"
    by (auto dest: RDFBytes_init_age RDFString_init_age RDFInteger_init_age ByteSize_init_age
      RDFDatetime_init_age Duration_init_age RDFURN_init_age SessionID_init_age)
  then have "age_property v = Instant RDFDatetime 0 (RawAge 0)"
    by (simp add: age_property_def RDFValue_init_def)
  moreover have "RDFDatetime_Now clock = Inr (Instant RDFDatetime clock (DatetimeAge 0 (RawAge 0)))"
    by (simp add: RDFDatetime_Now_def RDFDatetime_init_def RDFValue_init_def)
  ultimately show ?thesis by simp
qed

theorem default_age_is_epoch_witness:
  "RDFInteger_init RDFInteger None None = Inr (IntegerValue RDFInteger 0 (DatetimeAge 0 (RawAge 0))) \<and>
   age_property (IntegerValue RDFInteger 0 (DatetimeAge 0 (RawAge 0))) = Instant RDFDatetime 0 (RawAge 0) \<and>
   RDFDatetime_Now 1500000000000000 = Inr (Instant RDFDatetime 1500000000000000 (DatetimeAge 0 (RawAge 0)))"
proof -
  have h: "RDFInteger_init RDFInteger None None = Inr (IntegerValue RDFInteger 0 (DatetimeAge 0 (RawAge 0)))"
    by (simp add: RDFInteger_init_def RDFValue_init_def)
  from default_age_is_epoch [of None "IntegerValue RDFInteger 0 (DatetimeAge 0 (RawAge 0))" RDFInteger _ _ _ 1500000000000000] h
  show ?thesis by blast
qed

section \<open>SessionID: the grammar of ValidateID\<close>

lemma takeWhile_drop_colon:
  assumes "\<forall>x\<in>set q. P x" and "\<not> P c"
  shows "takeWhile P (q @ c # r) = q" and "dropWhile P (q @ c # r) = c # r"
  using assms by (simp_all add: takeWhile_append2 dropWhile_append2)

lemma takeWhile_all: "\<forall>x\<in>set q. P x \<Longrightarrow> takeWhile P q = q \<and> dropWhile P q = []"
  by simp

lemma colon_not_class: "\<not> re_queue_char CHR '':''" "\<not> re_alnum CHR '':''"
  by (simp_all add: re_queue_char_def re_alnum_def isdigit_def)

lemma ValidateID_grammar: "ValidateID id_str = session_id_grammar (before_final_newline id_str)"
proof
  assume v: "ValidateID id_str"
  define s where "s = before_final_newline id_str"
  define queue where "queue = takeWhile re_queue_char s"
  define t0 where "t0 = dropWhile re_queue_char s"
  have s_eq: "s = queue @ t0" by (simp add: queue_def t0_def)
  have q_all: "list_all re_queue_char queue"
    by (auto simp: queue_def list_all_iff dest: set_takeWhileD)
  from v have qne: "queue \<noteq> []"
    unfolding ValidateID_def Let_def s_def[symmetric] queue_def[symmetric] by simp
  have "t0 \<noteq> []"
  proof
    assume "t0 = []"
    with v show False
      unfolding ValidateID_def Let_def s_def[symmetric] t0_def[symmetric] by simp
  qed
  then obtain c t where t0: "t0 = c # t" by (cases t0) auto
  define flow where "flow = takeWhile re_alnum t"
  define t1 where "t1 = dropWhile re_alnum t"
  have t_eq: "t = flow @ t1" by (simp add: flow_def t1_def)
  have f_all: "list_all re_alnum flow"
    by (auto simp: flow_def list_all_iff dest: set_takeWhileD)
  from v t0 have c: "c = CHR '':''" and fne: "flow \<noteq> []"
    and rest: "t1 = [] \<or> (\<exists>t'. t1 = CHR '':'' # t' \<and> t' \<noteq> [] \<and> list_all re_alnum t')"
    unfolding ValidateID_def Let_def s_def[symmetric] queue_def[symmetric] t0_def[symmetric]
      flow_def t1_def
    by (auto split: list.splits)
  from rest show "session_id_grammar (before_final_newline id_str)"
  proof
    assume "t1 = []"
    with s_eq t0 c t_eq qne q_all fne f_all
    have "s = queue @ CHR '':'' # flow \<and>
         queue \<noteq> [] \<and> list_all re_queue_char queue \<and> flow \<noteq> [] \<and> list_all re_alnum flow" by simp
    then show ?thesis
      unfolding session_id_grammar_def s_def[symmetric] by blast
  next
    assume "\<exists>t'. t1 = CHR '':'' # t' \<and> t' \<noteq> [] \<and> list_all re_alnum t'"
    then obtain t' where "t1 = CHR '':'' # t'" "t' \<noteq> []" "list_all re_alnum t'" by auto
    with s_eq t0 c t_eq qne q_all fne f_all
    have "s = queue @ CHR '':'' # flow @ CHR '':'' # t' \<and>
         queue \<noteq> [] \<and> list_all re_queue_char queue \<and> flow \<noteq> [] \<and> list_all re_alnum flow \<and>
         t' \<noteq> [] \<and> list_all re_alnum t'" by simp
    then show ?thesis
      unfolding session_id_grammar_def s_def[symmetric] by blast
  qed
next
  assume g: "session_id_grammar (before_final_newline id_str)"
  define s where "s = before_final_newline id_str"
  from g consider
    (two) queue flow where "s = queue @ CHR '':'' # flow" "queue \<noteq> []" "list_all re_queue_char queue"
      "flow \<noteq> []" "list_all re_alnum flow"
  | (three) queue flow suffix where "s = queue @ CHR '':'' # flow @ CHR '':'' # suffix"
      "queue \<noteq> []" "list_all re_queue_char queue" "flow \<noteq> []" "list_all re_alnum flow"
      "suffix \<noteq> []" "list_all re_alnum suffix"
    unfolding session_id_grammar_def s_def[symmetric] by blast
  then show "ValidateID id_str"
  proof cases
    case two
    then have q: "takeWhile re_queue_char s = queue" "dropWhile re_queue_char s = CHR '':'' # flow"
      by (simp_all add: takeWhile_drop_colon colon_not_class list_all_iff)
    from two have f: "takeWhile re_alnum flow = flow" "dropWhile re_alnum flow = []"
      by (simp_all add: list_all_iff)
    from two(2,4) show ?thesis
      unfolding ValidateID_def Let_def s_def[symmetric] by (simp add: q f)
  next
    case three
    then have q: "takeWhile re_queue_char s = queue"
      "dropWhile re_queue_char s = CHR '':'' # flow @ CHR '':'' # suffix"
      by (simp_all add: takeWhile_drop_colon colon_not_class list_all_iff)
    from three have f: "takeWhile re_alnum (flow @ CHR '':'' # suffix) = flow"
      "dropWhile re_alnum (flow @ CHR '':'' # suffix) = CHR '':'' # suffix"
      by (simp_all add: takeWhile_drop_colon colon_not_class list_all_iff)
    from three(2,4,6,7) show ?thesis
      unfolding ValidateID_def Let_def s_def[symmetric] by (simp add: q f)
  qed
qed

section \<open>UTF-8: decoding what was encoded\<close>

lemma split64: "(n::nat) = n div 64 * 64 + n mod 64"
  by simp

lemma v3: "(cp::nat) div 4096 * 4096 + cp div 64 mod 64 * 64 + cp mod 64 = cp"
proof -
  have "(cp div 64) div 64 = cp div 4096" by (simp add: div_mult2_eq[symmetric])
  then have "cp div 64 = cp div 4096 * 64 + cp div 64 mod 64"
    using split64 [of "cp div 64"] by simp
  then have "cp div 64 * 64 = cp div 4096 * 4096 + cp div 64 mod 64 * 64" by simp
  with split64 [of cp] show ?thesis by simp
qed

lemma v4: "(cp::nat) div 262144 * 262144 + cp div 4096 mod 64 * 4096 + cp div 64 mod 64 * 64 + cp mod 64 = cp"
proof -
  have "(cp div 4096) div 64 = cp div 262144" by (simp add: div_mult2_eq[symmetric])
  then have "cp div 4096 = cp div 262144 * 64 + cp div 4096 mod 64"
    using split64 [of "cp div 4096"] by simp
  then have "cp div 4096 * 4096 = cp div 262144 * 262144 + cp div 4096 mod 64 * 4096" by simp
  with v3 [of cp] show ?thesis by simp
qed

lemma dec1:
  assumes "cp < 0x80"
  shows "utf8_decode (utf8_encode_char cp @ rest) = map_option (Cons cp) (utf8_decode rest)"
  using assms by (simp add: utf8_encode_char_def)

lemma dec2:
  assumes "0x80 \<le> cp" "cp < 0x800"
  shows "utf8_decode (utf8_encode_char cp @ rest) = map_option (Cons cp) (utf8_decode rest)"
proof -
  from assms have d: "cp div 64 < 32" "2 \<le> cp div 64" by auto
  have m: "cp mod 64 < 64" by simp
  define b0 where "b0 = 0xC0 + cp div 64"
  define b1 where "b1 = 0x80 + cp mod 64"
  from d m have r: "0xC2 \<le> b0" "b0 < 0xE0" "0x80 \<le> b1" "b1 < 0xC0"
    by (simp_all add: b0_def b1_def)
  then have oc: "(of_char (char_of b0) :: nat) = b0" "(of_char (char_of b1) :: nat) = b1"
    by simp_all
  have e: "utf8_encode_char cp = [char_of b0, char_of b1]"
    using assms by (simp add: utf8_encode_char_def b0_def b1_def)
  have v: "(b0 - 0xC0) * 64 + (b1 - 0x80) = cp"
    by (simp add: b0_def b1_def)
  from r show ?thesis
    by (simp add: e oc is_cont_def cont_bits_def v)
qed

lemma dec3:
  assumes "0x800 \<le> cp" "cp < 0x10000"
  shows "utf8_decode (utf8_encode_char cp @ rest) = map_option (Cons cp) (utf8_decode rest)"
proof -
  from assms have d: "cp div 4096 < 16" by auto
  have m: "cp mod 64 < 64" "cp div 64 mod 64 < 64" by simp_all
  define b0 where "b0 = 0xE0 + cp div 4096"
  define b1 where "b1 = 0x80 + cp div 64 mod 64"
  define b2 where "b2 = 0x80 + cp mod 64"
  from d m have r: "0xE0 \<le> b0" "b0 < 0xF0" "0x80 \<le> b1" "b1 < 0xC0" "0x80 \<le> b2" "b2 < 0xC0"
    by (simp_all add: b0_def b1_def b2_def)
  then have oc: "(of_char (char_of b0) :: nat) = b0" "(of_char (char_of b1) :: nat) = b1"
    "(of_char (char_of b2) :: nat) = b2"
    by simp_all
  have e: "utf8_encode_char cp = [char_of b0, char_of b1, char_of b2]"
    using assms by (simp add: utf8_encode_char_def b0_def b1_def b2_def)
  have v: "(b0 - 0xE0) * 4096 + (b1 - 0x80) * 64 + (b2 - 0x80) = cp"
    using v3 [of cp] by (simp add: b0_def b1_def b2_def)
  from r assms show ?thesis
    by (simp add: e oc is_cont_def cont_bits_def v)
qed

lemma dec4:
  assumes "0x10000 \<le> cp" "cp < 0x110000"
  shows "utf8_decode (utf8_encode_char cp @ rest) = map_option (Cons cp) (utf8_decode rest)"
proof -
  from assms have d: "cp div 262144 < 5" by auto
  have m: "cp mod 64 < 64" "cp div 64 mod 64 < 64" "cp div 4096 mod 64 < 64" by simp_all
  define b0 where "b0 = 0xF0 + cp div 262144"
  define b1 where "b1 = 0x80 + cp div 4096 mod 64"
  define b2 where "b2 = 0x80 + cp div 64 mod 64"
  define b3 where "b3 = 0x80 + cp mod 64"
  from d m have r: "0xF0 \<le> b0" "b0 < 0xF5" "0x80 \<le> b1" "b1 < 0xC0" "0x80 \<le> b2" "b2 < 0xC0"
    "0x80 \<le> b3" "b3 < 0xC0"
    by (simp_all add: b0_def b1_def b2_def b3_def)
  then have oc: "(of_char (char_of b0) :: nat) = b0" "(of_char (char_of b1) :: nat) = b1"
    "(of_char (char_of b2) :: nat) = b2" "(of_char (char_of b3) :: nat) = b3"
    by simp_all
  have e: "utf8_encode_char cp = [char_of b0, char_of b1, char_of b2, char_of b3]"
    using assms by (simp add: utf8_encode_char_def b0_def b1_def b2_def b3_def)
  have v: "(b0 - 0xF0) * 262144 + (b1 - 0x80) * 4096 + (b2 - 0x80) * 64 + (b3 - 0x80) = cp"
    using v4 [of cp] by (simp add: b0_def b1_def b2_def b3_def)
  from r assms show ?thesis
    by (simp add: e oc is_cont_def cont_bits_def v)
qed

lemma utf8_decode_encode_char:
  assumes "cp < 0x110000"
  shows "utf8_decode (utf8_encode_char cp @ rest) = map_option (Cons cp) (utf8_decode rest)"
proof -
  consider "cp < 0x80" | "0x80 \<le> cp" "cp < 0x800" | "0x800 \<le> cp" "cp < 0x10000"
    | "0x10000 \<le> cp" "cp < 0x110000"
    using assms by linarith
  then show ?thesis
    by cases (simp_all add: dec1 dec2 dec3 dec4)
qed

lemma utf8_round_trip:
  "\<forall>cp\<in>set u. cp < 0xD800 \<or> (0xE000 \<le> cp \<and> cp < 0x110000) \<Longrightarrow>
   utf8_decode (utf8_encode u) = Some u"
proof (induction u rule: utf8_encode.induct)
  case 1
  then show ?case by simp
next
  case (2 cp)
  then have "cp < 0x110000" by auto
  then show ?case using utf8_decode_encode_char [of cp "[]"] by simp
next
  case (3 cp cp2 rest)
  from "3.prems" have r: "cp < 0x110000" and n: "\<not> (0xD800 \<le> cp \<and> cp \<le> 0xDBFF)" by auto
  from n have c: "\<not> (0xD800 \<le> cp \<and> cp \<le> 0xDBFF \<and> 0xDC00 \<le> cp2 \<and> cp2 \<le> 0xDFFF)" by blast
  from "3.IH"(2) [OF c] "3.prems"
  have ih: "utf8_decode (utf8_encode (cp2 # rest)) = Some (cp2 # rest)" by simp
  have "utf8_encode (cp # cp2 # rest) = utf8_encode_char cp @ utf8_encode (cp2 # rest)"
    by (simp only: utf8_encode.simps c if_False)
  with r ih show ?case by (simp add: utf8_decode_encode_char del: utf8_encode.simps)
qed

section \<open>Duration: parsing the canonical text\<close>

lemma Duration_parse_unit:
  assumes "(label, divider) \<in> set Duration_DIVIDERS"
  shows "Duration_ParseFromHumanReadable old (str_int n @ [label]) = Inr (n * divider)"
proof -
  from assms have nd: "\<not> isdigit label" and m: "map_of Duration_DIVIDERS label = Some divider"
    by (auto simp: Duration_DIVIDERS_def isdigit_def)
  then show ?thesis
    by (simp add: Duration_ParseFromHumanReadable_def int_of_str_str_int)
qed

lemma Duration_str_unit:
  "\<exists>label divider. (label, divider) \<in> set Duration_DIVIDERS \<and> v mod divider = 0 \<and>
     Duration_str v = Some (str_int (v div divider) @ [label])"
  by (simp add: Duration_str_def Duration_DIVIDERS_def)

lemma Duration_round_trip:
  "\<exists>wire. Duration_str v = Some wire \<and> Duration_ParseFromHumanReadable old wire = Inr v"
proof -
  from Duration_str_unit [of v] obtain label divider where
    u: "(label, divider) \<in> set Duration_DIVIDERS" "v mod divider = 0"
      "Duration_str v = Some (str_int (v div divider) @ [label])"
    by auto
  from u(2) have "v div divider * divider = v" by (simp add: mod_0_imp_dvd)
  with Duration_parse_unit [OF u(1), of old "v div divider"] u(3) show ?thesis by simp
qed

section \<open>RDFURN: normalized paths\<close>

lemma split_no_sep: "seg \<in> set (split sep s) \<Longrightarrow> sep \<notin> set seg"
proof (induction sep s arbitrary: seg rule: split.induct)
  case (1 sep s)
  show ?case
  proof (cases "dropWhile (\<lambda>c. c \<noteq> sep) s")
    case Nil
    with "1.prems" have "seg = takeWhile (\<lambda>c. c \<noteq> sep) s"
      by (subst (asm) split.simps) simp
    then show ?thesis by (auto dest: set_takeWhileD)
  next
    case (Cons c r)
    with "1.prems" have "seg = takeWhile (\<lambda>c. c \<noteq> sep) s \<or> seg \<in> set (split sep r)"
      by (subst (asm) split.simps) simp
    then show ?thesis
    proof
      assume "seg = takeWhile (\<lambda>c. c \<noteq> sep) s"
      then show ?thesis by (auto dest: set_takeWhileD)
    next
      assume "seg \<in> set (split sep r)"
      with "1.IH" [OF Cons] show ?thesis by simp
    qed
  qed
qed

lemma split_plain:
  assumes "sep \<notin> set x"
  shows "split sep x = [x]"
proof -
  from assms have t: "takeWhile (\<lambda>c. c \<noteq> sep) x = x" "dropWhile (\<lambda>c. c \<noteq> sep) x = []"
    by auto
  show ?thesis by (subst split.simps) (simp add: t)
qed

lemma split_append_sep:
  assumes "sep \<notin> set x"
  shows "split sep (x @ sep # rest) = x # split sep rest"
proof -
  from assms have a: "\<forall>c\<in>set x. c \<noteq> sep" by auto
  then have t: "takeWhile (\<lambda>c. c \<noteq> sep) (x @ sep # rest) = x"
    "dropWhile (\<lambda>c. c \<noteq> sep) (x @ sep # rest) = sep # rest"
    by (simp_all add: takeWhile_append2 dropWhile_append2)
  show ?thesis by (subst split.simps) (simp add: t)
qed

lemma split_join:
  "segs \<noteq> [] \<Longrightarrow> \<forall>seg\<in>set segs. sep \<notin> set seg \<Longrightarrow> split sep (join sep segs) = segs"
proof (induction sep segs rule: join.induct)
  case (1 sep)
  then show ?case by simp
next
  case (2 sep x)
  then show ?case by (simp add: split_plain)
next
  case (3 sep x y r)
  then show ?case by (simp add: split_append_sep)
qed

lemma normalize_segments_subset:
  "x \<in> set (normalize_segments kept segs) \<Longrightarrow> x \<in> set kept \<or> (x \<in> set segs \<and> kept_segment x)"
proof (induction kept segs rule: normalize_segments.induct)
  case (1 kept)
  then show ?case by simp
next
  case (2 kept seg rest)
  then show ?case
    by (auto simp: kept_segment_def split: if_splits list.splits)
qed

lemma normalize_segments_kept:
  "\<forall>seg\<in>set segs. kept_segment seg \<Longrightarrow> normalize_segments kept segs = rev kept @ segs"
  by (induction kept segs rule: normalize_segments.induct) (auto simp: kept_segment_def)

lemma NormalizePath_idempotent: "NormalizePath (NormalizePath path) = NormalizePath path"
proof -
  define segs where "segs = normalize_segments [] (split CHR ''/'' path)"
  have k: "\<forall>seg\<in>set segs. kept_segment seg"
    using normalize_segments_subset [of _ "[]" "split CHR ''/'' path"] by (auto simp: segs_def)
  have n: "\<forall>seg\<in>set segs. CHR ''/'' \<notin> set seg"
    using normalize_segments_subset [of _ "[]" "split CHR ''/'' path"] split_no_sep
    by (fastforce simp: segs_def)
  have p: "NormalizePath path = CHR ''/'' # join CHR ''/'' segs"
    by (simp add: NormalizePath_def segs_def)
  have s: "split CHR ''/'' (CHR ''/'' # join CHR ''/'' segs) = [] # split CHR ''/'' (join CHR ''/'' segs)"
    using split_append_sep [of "CHR ''/''" "[]" "join CHR ''/'' segs"] by simp
  have "normalize_segments [] ([] # split CHR ''/'' (join CHR ''/'' segs)) = segs"
  proof (cases "segs = []")
    case True
    then show ?thesis by (simp add: split.simps)
  next
    case False
    with n have "split CHR ''/'' (join CHR ''/'' segs) = segs" by (simp add: split_join)
    with k show ?thesis by (simp add: normalize_segments_kept)
  qed
  with p s show ?thesis by (simp add: NormalizePath_def)
qed

lemma RDFURN_round_trip_path:
  assumes "NormalizePath p = p"
  shows "RDFURN_ParseFromString (RDFURN_str p) = p"
proof -
  from assms have "p = CHR ''/'' # join CHR ''/'' (normalize_segments [] (split CHR ''/'' p))"
    by (simp add: NormalizePath_def)
  then obtain r where r: "p = CHR ''/'' # r" ..
  then have "RDFURN_ParseFromString (RDFURN_str p) = NormalizePath p"
    by (simp add: RDFURN_ParseFromString_def RDFURN_str_def startswith_def)
  with assms show ?thesis by simp
qed

lemma RDFURN_round_trip_parsed:
  "RDFURN_ParseFromString (RDFURN_str (RDFURN_ParseFromString s)) = RDFURN_ParseFromString s"
  by (rule RDFURN_round_trip_path) (simp add: RDFURN_ParseFromString_def NormalizePath_idempotent)

section \<open>SessionID: validation at construction\<close>

text \<open>
  As the spec states it, C2 fails on the code: a string initializer is handed to
  \<open>RDFURN.__init__\<close> without any validation, so \<open>SessionID("aff4:/flows/bad id")\<close>
  returns an instance; and the pattern allows a hyphen in the queue only, so the
  \<open>RDFURN\<close> of \<open>aff4:/flows/W:AB-CD\<close> is rejected.
\<close>

theorem SessionID_init_counterexample:
  "SessionID_init (InitStr ''aff4:/flows/bad id'') None =
     Inr (URN SessionID ''/flows/bad id'' (DatetimeAge 0 (RawAge 0))) \<and>
   SessionID_init (InitObj (URN RDFURN ''/flows/W:AB-CD'' (DatetimeAge 0 (RawAge 0)))) None =
     Inl InitializeError"
  by (simp add: SessionID_init_def RDFURN_init_def RDFValue_init_def RDFURN_ParseFromString_def
      startswith_def NormalizePath_def split.simps RDFURN_Basename_def basename_def
      ValidateID_def before_final_newline_def re_queue_char_def re_alnum_def isdigit_def)

text \<open>
  C2, amended. Constructing a \<open>SessionID\<close> from an \<open>RDFURN\<close> instance succeeds, with
  the path of the instance, exactly when the last segment of the path (a final newline
  apart) has the form \<open>queue:flow\<close> or \<open>queue:flow:suffix\<close>, the queue drawn from
  \<open>[-0-9a-zA-Z]+\<close> and the flow and the suffix from \<open>[0-9a-zA-Z]+\<close>; otherwise it
  raises \<open>InitializeError\<close>. Constructing it from a string always succeeds and
  validates nothing.
\<close>

theorem SessionID_init_validation:
  "SessionID_init (InitObj (URN c p a)) age =
     (if session_id_grammar (before_final_newline (basename p))
      then Inr (URN SessionID p (RDFValue_init age))
      else Inl InitializeError) \<and>
   SessionID_init (InitStr s) age =
     Inr (URN SessionID (RDFURN_ParseFromString s) (RDFValue_init age))"
  by (simp add: SessionID_init_def RDFURN_init_def RDFURN_Basename_def ValidateID_grammar)

theorem SessionID_init_validation_witness:
  "SessionID_init (InitObj (URN RDFURN ''/flows/W:ABCDEF'' (DatetimeAge 0 (RawAge 0)))) None =
     Inr (URN SessionID ''/flows/W:ABCDEF'' (DatetimeAge 0 (RawAge 0))) \<and>
   SessionID_init (InitObj (URN RDFURN ''/flows/bad id'' (DatetimeAge 0 (RawAge 0)))) None =
     Inl InitializeError \<and>
   SessionID_init (InitStr ''aff4:/flows/W:ABCDEF'') None =
     Inr (URN SessionID ''/flows/W:ABCDEF'' (DatetimeAge 0 (RawAge 0)))"
proof -
  have g1: "session_id_grammar (before_final_newline (basename ''/flows/W:ABCDEF''))"
    unfolding ValidateID_grammar [symmetric]
    by (simp add: basename_def ValidateID_def before_final_newline_def re_queue_char_def
        re_alnum_def isdigit_def)
  have g2: "\<not> session_id_grammar (before_final_newline (basename ''/flows/bad id''))"
    unfolding ValidateID_grammar [symmetric]
    by (simp add: basename_def ValidateID_def before_final_newline_def re_queue_char_def
        re_alnum_def isdigit_def)
  have p: "RDFURN_ParseFromString ''aff4:/flows/W:ABCDEF'' = ''/flows/W:ABCDEF''"
    by (simp add: RDFURN_ParseFromString_def startswith_def NormalizePath_def split.simps)
  have a: "RDFValue_init None = DatetimeAge 0 (RawAge 0)" by (simp add: RDFValue_init_def)
  from SessionID_init_validation [of RDFURN "''/flows/W:ABCDEF''" "DatetimeAge 0 (RawAge 0)" None
      "''aff4:/flows/W:ABCDEF''"]
    SessionID_init_validation [of RDFURN "''/flows/bad id''" "DatetimeAge 0 (RawAge 0)" None "[]"]
  show ?thesis by (simp only: g1 g2 p a if_True if_False simp_thms)
qed

section \<open>The round trip through the wire form\<close>

lemma RDFInteger_round_trip: "RDFInteger_ParseFromString (RDFInteger_SerializeToString v) = Inr v"
  by (simp add: RDFInteger_ParseFromString_def RDFInteger_SerializeToString_def
      int_of_str_str_int str_int_nonempty)

lemma Duration_wire:
  "\<exists>wire. SerializeToString (DurationValue v a) = Inr wire \<and>
     ParseFromString (DurationValue v0 a0) wire = Inr (DurationValue v a0)"
proof -
  from Duration_round_trip [of v v0] obtain wire where
    "Duration_str v = Some wire" "Duration_ParseFromHumanReadable v0 wire = Inr v"
    by auto
  then show ?thesis by simp
qed

text \<open>
  As the spec states it, C1 fails on the code: \<open>RDFURN()\<close>, constructed with no
  argument, has the empty path; it serializes to \<open>aff4:\<close>, which does not start with
  \<open>aff4:/\<close> and so is normalized as a path of its own: the value parsed back has the
  path \<open>/aff4:\<close> and is not equal to the one serialized.
\<close>

theorem wire_round_trip_counterexample:
  "RDFURN_init RDFURN None None = Inr (URN RDFURN [] (DatetimeAge 0 (RawAge 0))) \<and>
   SerializeToString (URN RDFURN [] (DatetimeAge 0 (RawAge 0))) = Inr ''aff4:'' \<and>
   ParseFromString (URN RDFURN [] (DatetimeAge 0 (RawAge 0))) ''aff4:'' =
     Inr (URN RDFURN ''/aff4:'' (DatetimeAge 0 (RawAge 0))) \<and>
   payload_of (URN RDFURN ''/aff4:'' (DatetimeAge 0 (RawAge 0))) \<noteq> payload_of (URN RDFURN [] (DatetimeAge 0 (RawAge 0)))"
  by (simp add: RDFURN_init_def RDFValue_init_def RDFURN_str_def RDFURN_ParseFromString_def
      startswith_def NormalizePath_def split.simps)

text \<open>
  C1, amended. Parsing the wire form of a value into an instance of its class gives
  that instance the payload of the value, for \<open>RDFBytes\<close>, for \<open>RDFString\<close> (a text
  of code points up to \<open>0x10FFFF\<close> outside the surrogate range \<open>0xD800\<close> to
  \<open>0xDFFF\<close>), for \<open>RDFInteger\<close>, \<open>RDFBool\<close>, \<open>ByteSize\<close>,
  \<open>RDFDatetime\<close>, \<open>RDFDatetimeSeconds\<close> and \<open>Duration\<close> with an integer payload, and
  for \<open>RDFURN\<close> and \<open>SessionID\<close> whose path is normalized, as the path of every URN
  parsed from a text is. The age of the instance parsed into stays.
\<close>

theorem wire_round_trip:
  assumes "\<forall>cp\<in>set u. cp < 0xD800 \<or> (0xE000 \<le> cp \<and> cp < 0x110000)" and "NormalizePath p = p"
  shows
  "(\<exists>wire. SerializeToString (BytesValue s a) = Inr wire \<and>
      ParseFromString (BytesValue s0 a0) wire = Inr (BytesValue s a0)) \<and>
   (\<exists>wire. SerializeToString (StringValue u a) = Inr wire \<and>
      ParseFromString (StringValue u0 a0) wire = Inr (StringValue u a0)) \<and>
   (\<exists>wire. SerializeToString (IntegerValue c v a) = Inr wire \<and>
      ParseFromString (IntegerValue c v0 a0) wire = Inr (IntegerValue c v a0)) \<and>
   (\<exists>wire. SerializeToString (Instant t v a) = Inr wire \<and>
      ParseFromString (Instant t v0 a0) wire = Inr (Instant t v a0)) \<and>
   (\<exists>wire. SerializeToString (DurationValue v a) = Inr wire \<and>
      ParseFromString (DurationValue v0 a0) wire = Inr (DurationValue v a0)) \<and>
   (\<exists>wire. SerializeToString (URN k p a) = Inr wire \<and>
      ParseFromString (URN k p0 a0) wire = Inr (URN k p a0)) \<and>
   (\<exists>wire. SerializeToString (URN k (RDFURN_ParseFromString text) a) = Inr wire \<and>
      ParseFromString (URN k p0 a0) wire = Inr (URN k (RDFURN_ParseFromString text) a0))"
  using assms
  by (simp add: utf8_round_trip RDFInteger_round_trip Duration_wire [simplified]
      RDFURN_round_trip_path RDFURN_round_trip_parsed)

theorem wire_round_trip_witness:
  "ParseFromString (StringValue [] (DatetimeAge 0 (RawAge 0))) (utf8_encode [0x20AC]) =
     Inr (StringValue [0x20AC] (DatetimeAge 0 (RawAge 0))) \<and>
   ParseFromString (URN RDFURN [] (DatetimeAge 0 (RawAge 0))) ''aff4:/flows/W:ABCDEF'' =
     Inr (URN RDFURN ''/flows/W:ABCDEF'' (DatetimeAge 0 (RawAge 0)))"
proof -
  have h1: "\<forall>cp\<in>set [0x20AC]. cp < (0xD800 :: nat) \<or> (0xE000 \<le> cp \<and> cp < 0x110000)" by simp
  have h2: "NormalizePath ''/flows/W:ABCDEF'' = ''/flows/W:ABCDEF''"
    by (simp add: NormalizePath_def split.simps)
  from wire_round_trip [OF h1 h2, where a = "DatetimeAge 0 (RawAge 0)" and ?a0.0 = "DatetimeAge 0 (RawAge 0)"
      and ?u0.0 = "[]" and k = RDFURN and ?p0.0 = "[]"]
  show ?thesis by (simp add: RDFURN_str_def)
qed

section \<open>Copy\<close>

lemma lookup_allocate:
  "lookup (fst (allocate st v)) r =
     (if r = snd (allocate st v) then Some v else lookup st r)"
  by (simp add: lookup_def allocate_def nth_append)







section \<open>ByteSize: text with a unit\<close>

lemma lower_char_b: "lower_char c = CHR ''b'' \<longleftrightarrow> c = CHR ''b'' \<or> c = CHR ''B''"
proof
  assume a: "lower_char c = CHR ''b''"
  show "c = CHR ''b'' \<or> c = CHR ''B''"
  proof (cases "65 \<le> (of_char c :: nat) \<and> (of_char c :: nat) \<le> 90")
    case True
    with a have "char_of ((of_char c :: nat) + 32) = CHR ''b''" by (simp add: lower_char_def)
    then have "(of_char (char_of ((of_char c :: nat) + 32)) :: nat) = of_char CHR ''b''" by simp
    with True have "(of_char c :: nat) = 66" by simp
    then have "(of_char c :: nat) = of_char CHR ''B''" by simp
    then have "c = CHR ''B''" by (simp only: of_char_eq_iff)
    then show ?thesis by simp
  next
    case False
    with a show ?thesis by (simp add: lower_char_def)
  qed
next
  assume "c = CHR ''b'' \<or> c = CHR ''B''"
  then show "lower_char c = CHR ''b''"
    by (auto simp: lower_char_def char_of_def bit_Suc_0_iff)
qed

lemma not_coefficient:
  "re_multiplier_char c \<Longrightarrow> \<not> re_coefficient_char c"
  "lower_char c = CHR ''b'' \<Longrightarrow> \<not> re_coefficient_char c"
  "\<not> re_coefficient_char CHR 0x0A"
proof -
  show "\<not> re_coefficient_char CHR 0x0A" by (simp add: re_coefficient_char_def isdigit_def)
  show "lower_char c = CHR ''b'' \<Longrightarrow> \<not> re_coefficient_char c"
    by (auto simp: lower_char_b re_coefficient_char_def isdigit_def)
  show "re_multiplier_char c \<Longrightarrow> \<not> re_coefficient_char c"
    by (auto simp: re_multiplier_char_def re_coefficient_char_def isdigit_def lower_char_def
        split: if_splits)
qed

lemma not_multiplier:
  "lower_char c = CHR ''b'' \<Longrightarrow> \<not> re_multiplier_char c"
  "\<not> re_multiplier_char CHR 0x0A"
  by (auto simp: re_multiplier_char_def lower_char_def)

lemma takeWhile_stop:
  assumes "\<forall>x\<in>set xs. P x" and "ys = [] \<or> \<not> P (hd ys)"
  shows "takeWhile P (xs @ ys) = xs" and "dropWhile P (xs @ ys) = ys"
  using assms by (cases ys; simp add: takeWhile_append2 dropWhile_append2)+

lemma REGEX_match_iff:
  "ByteSize_REGEX_match s = Some (coefficient, suffix) \<longleftrightarrow>
   coefficient \<noteq> [] \<and> list_all re_coefficient_char coefficient \<and>
   list_all re_multiplier_char suffix \<and>
   (\<exists>tail. tail \<in> set byte_size_tails \<and> s = coefficient @ suffix @ tail)"
proof
  assume m: "ByteSize_REGEX_match s = Some (coefficient, suffix)"
  define after1 where "after1 = dropWhile re_coefficient_char s"
  define after2 where "after2 = dropWhile re_multiplier_char after1"
  define after_b where "after_b = (case after2 of [] \<Rightarrow> [] | c # t \<Rightarrow> if lower_char c = CHR ''b'' then t else after2)"
  from m have g1: "coefficient = takeWhile re_coefficient_char s"
    and g2: "suffix = takeWhile re_multiplier_char after1"
    and ne: "coefficient \<noteq> []" and ab: "after_b = [] \<or> after_b = [CHR 0x0A]"
    unfolding ByteSize_REGEX_match_def Let_def after1_def after2_def after_b_def
    by (auto split: if_splits)
  have s: "s = coefficient @ suffix @ after2"
    by (simp add: g1 g2 after1_def after2_def)
  have c1: "list_all re_coefficient_char coefficient"
    by (auto simp: g1 list_all_iff dest: set_takeWhileD)
  have c2: "list_all re_multiplier_char suffix"
    by (auto simp: g2 list_all_iff dest: set_takeWhileD)
  have "after2 \<in> set byte_size_tails"
  proof (cases after2)
    case Nil
    then show ?thesis by (simp add: byte_size_tails_def)
  next
    case (Cons c t)
    show ?thesis
    proof (cases "lower_char c = CHR ''b''")
      case True
      with Cons ab have "t = [] \<or> t = [CHR 0x0A]" by (simp add: after_b_def)
      with True Cons show ?thesis by (auto simp: byte_size_tails_def lower_char_b)
    next
      case False
      with Cons ab show ?thesis by (auto simp: after_b_def byte_size_tails_def)
    qed
  qed
  with s ne c1 c2 show "coefficient \<noteq> [] \<and> list_all re_coefficient_char coefficient \<and>
   list_all re_multiplier_char suffix \<and>
   (\<exists>tail. tail \<in> set byte_size_tails \<and> s = coefficient @ suffix @ tail)" by blast
next
  assume a: "coefficient \<noteq> [] \<and> list_all re_coefficient_char coefficient \<and>
   list_all re_multiplier_char suffix \<and>
   (\<exists>tail. tail \<in> set byte_size_tails \<and> s = coefficient @ suffix @ tail)"
  then obtain tail where tl: "tail \<in> set byte_size_tails" and s: "s = coefficient @ suffix @ tail"
    by blast
  from a have c1: "\<forall>x\<in>set coefficient. re_coefficient_char x"
    and c2: "\<forall>x\<in>set suffix. re_multiplier_char x" and ne: "coefficient \<noteq> []"
    by (simp_all add: list_all_iff)
  from tl have "tail = [] \<or> lower_char (hd tail) = CHR ''b'' \<or> hd tail = CHR 0x0A"
    by (auto simp: byte_size_tails_def lower_char_b)
  then have t1: "tail = [] \<or> \<not> re_coefficient_char (hd tail)"
    and t2: "tail = [] \<or> \<not> re_multiplier_char (hd tail)"
    using not_coefficient(2,3) not_multiplier by auto
  from c2 t1 have st: "suffix @ tail = [] \<or> \<not> re_coefficient_char (hd (suffix @ tail))"
    by (cases suffix) (auto dest: not_coefficient(1))
  have q1: "takeWhile re_coefficient_char s = coefficient"
    "dropWhile re_coefficient_char s = suffix @ tail"
    unfolding s using takeWhile_stop [OF c1 st] by simp_all
  have q2: "takeWhile re_multiplier_char (suffix @ tail) = suffix"
    "dropWhile re_multiplier_char (suffix @ tail) = tail"
    using takeWhile_stop [OF c2 t2] by simp_all
  from tl have q3: "(case tail of [] \<Rightarrow> [] | c # t \<Rightarrow> if lower_char c = CHR ''b'' then t else tail) = [] \<or>
    (case tail of [] \<Rightarrow> [] | c # t \<Rightarrow> if lower_char c = CHR ''b'' then t else tail) = [CHR 0x0A]"
    by (auto simp: byte_size_tails_def lower_char_b)
  from ne q3 show "ByteSize_REGEX_match s = Some (coefficient, suffix)"
    unfolding ByteSize_REGEX_match_def Let_def q1 q2 by simp
qed

lemma REGEX_group1_digits:
  assumes "ByteSize_REGEX_match s = Some (group1, group2)" and "CHR ''.'' \<notin> set group1"
  shows "is_digits group1"
proof -
  from assms(1) have g: "group1 = takeWhile re_coefficient_char s" and ne: "group1 \<noteq> []"
    by (auto simp: ByteSize_REGEX_match_def Let_def split: if_splits)
  from g have "\<forall>c\<in>set group1. re_coefficient_char c" by (auto dest: set_takeWhileD)
  with assms(2) have "\<forall>c\<in>set group1. isdigit c" by (auto simp: re_coefficient_char_def)
  with ne show ?thesis by (simp add: is_digits_def list_all_iff)
qed

lemma ByteSize_DIVIDERS_positive: "map_of ByteSize_DIVIDERS suffix = Some multiplier \<Longrightarrow> multiplier \<noteq> 0"
  by (auto simp: ByteSize_DIVIDERS_def split: if_splits)

lemma rtd_15_10: "round_to_double 15 10 = Finite 6755399441055744 (- 52)"
  by (simp add: round_to_double_def floor_log2_def bit_length.simps round_half_even_def Let_def)

lemma float_1_5: "float_of_str ''1.5'' = Inr (Finite 6755399441055744 (- 52))"
  by (simp add: float_of_str_def isdigit_def digits_val_def digit_val_def rtd_15_10)

lemma mul_1_5_gi: "double_mul (Finite 6755399441055744 (- 52)) 1073741824 = Finite 6755399441055744 (- 22)"
  by (simp add: round_to_double_def floor_log2_def bit_length.simps round_half_even_def Let_def)

lemma mul_1_5_one: "double_mul (Finite 6755399441055744 (- 52)) (Suc 0) = Finite 6755399441055744 (- 52)"
  by (simp add: round_to_double_def floor_log2_def bit_length.simps round_half_even_def Let_def)

lemma match_examples:
  "ByteSize_REGEX_match (lower (strip ''1Kib'')) = Some (''1'', ''ki'')"
  "ByteSize_REGEX_match (lower (strip ''1kb'')) = Some (''1'', ''k'')"
  "ByteSize_REGEX_match (lower (strip ''1.5Gi'')) = Some (''1.5'', ''gi'')"
  "ByteSize_REGEX_match (lower (strip ''1xb'')) = None"
  "ByteSize_REGEX_match (lower (strip ''1.5'')) = Some (''1.5'', [])"
  by (simp_all add: ByteSize_REGEX_match_def re_coefficient_char_def re_multiplier_char_def
      isdigit_def lower_def lower_char_def strip_def isspace_def Let_def char_of_def bit_Suc_0_iff)

text \<open>
  As the spec states it, C7 fails on the code: a coefficient with a fraction is
  accepted when no multiplier follows (\<open>1.5\<close> parses to 1), and the empty text,
  which the pattern does not match, raises nothing and leaves the payload as it was.
\<close>

theorem ByteSize_fraction_counterexample:
  "ByteSize_ParseFromHumanReadable 0 ''1.5'' = Inr 1 \<and> ByteSize_ParseFromHumanReadable 7 [] = Inr 7"
  by (simp add: ByteSize_ParseFromHumanReadable_def match_examples ByteSize_DIVIDERS_def
      float_1_5 mul_1_5_one del: double_mul.simps)

text \<open>
  C7, amended. \<open>ByteSize.ParseFromHumanReadable\<close> leaves the payload as it is for
  the empty text. Any other text is stripped of surrounding whitespace and put in
  lower case, and must then consist of a non-empty coefficient of digits and dots, a
  run of the letters k, m, g, i, an optional b (and an optional final newline);
  if it does not, or if the run of letters is not one of the keys of the table,
  \<open>DecodeError\<close> is raised. The table gives 1 for no letters, 1000, 1000000 and
  1000000000 for k, m and g, and 1024, 1048576 and 1073741824 for ki, mi and gi. A
  coefficient without a dot is multiplied as an integer. A coefficient with a dot is
  converted to a double whether or not a multiplier follows, multiplied in floating
  point and cut off to an integer; \<open>float\<close> raises \<open>ValueError\<close> for a malformed
  one. So \<open>1Kib\<close> parses to 1024, \<open>1kb\<close> to 1000, \<open>1.5Gi\<close> to 1610612736, and
  \<open>1xb\<close> raises \<open>DecodeError\<close>.
\<close>

theorem ByteSize_ParseFromHumanReadable_cases:
  "(ByteSize_REGEX_match text = Some (group1, group2) \<longleftrightarrow>
      group1 \<noteq> [] \<and> list_all re_coefficient_char group1 \<and> list_all re_multiplier_char group2 \<and>
      (\<exists>tail. tail \<in> set byte_size_tails \<and> text = group1 @ group2 @ tail)) \<and>
   ByteSize_ParseFromHumanReadable old [] = Inr old \<and>
   (string \<noteq> [] \<and> ByteSize_REGEX_match (lower (strip string)) = None
      \<longrightarrow> ByteSize_ParseFromHumanReadable old string = Inl DecodeError) \<and>
   (string \<noteq> [] \<and> ByteSize_REGEX_match (lower (strip string)) = Some (coefficient, suffix) \<and>
    map_of ByteSize_DIVIDERS suffix = None
      \<longrightarrow> ByteSize_ParseFromHumanReadable old string = Inl DecodeError) \<and>
   (string \<noteq> [] \<and> ByteSize_REGEX_match (lower (strip string)) = Some (coefficient, suffix) \<and>
    map_of ByteSize_DIVIDERS suffix = Some multiplier \<and> CHR ''.'' \<notin> set coefficient
      \<longrightarrow> ByteSize_ParseFromHumanReadable old string =
          Inr (int (digits_val coefficient) * int multiplier)) \<and>
   (string \<noteq> [] \<and> ByteSize_REGEX_match (lower (strip string)) = Some (coefficient, suffix) \<and>
    map_of ByteSize_DIVIDERS suffix = Some multiplier \<and> CHR ''.'' \<in> set coefficient
      \<longrightarrow> ByteSize_ParseFromHumanReadable old string =
          (case float_of_str coefficient of
             Inl e \<Rightarrow> Inl e
           | Inr x \<Rightarrow> int_of_double (double_mul x multiplier))) \<and>
   map_of ByteSize_DIVIDERS =
     [[] \<mapsto> 1, ''k'' \<mapsto> 1000, ''m'' \<mapsto> 1000000, ''g'' \<mapsto> 1000000000,
      ''ki'' \<mapsto> 1024, ''mi'' \<mapsto> 1048576, ''gi'' \<mapsto> 1073741824]"
proof (intro conjI impI)
  show "ByteSize_REGEX_match text = Some (group1, group2) \<longleftrightarrow>
      group1 \<noteq> [] \<and> list_all re_coefficient_char group1 \<and> list_all re_multiplier_char group2 \<and>
      (\<exists>tail. tail \<in> set byte_size_tails \<and> text = group1 @ group2 @ tail)"
    by (rule REGEX_match_iff)
next
  show "ByteSize_ParseFromHumanReadable old [] = Inr old"
    by (simp add: ByteSize_ParseFromHumanReadable_def)
next
  assume "string \<noteq> [] \<and> ByteSize_REGEX_match (lower (strip string)) = None"
  then show "ByteSize_ParseFromHumanReadable old string = Inl DecodeError"
    by (simp add: ByteSize_ParseFromHumanReadable_def)
next
  assume "string \<noteq> [] \<and> ByteSize_REGEX_match (lower (strip string)) = Some (coefficient, suffix) \<and>
    map_of ByteSize_DIVIDERS suffix = None"
  then show "ByteSize_ParseFromHumanReadable old string = Inl DecodeError"
    by (simp add: ByteSize_ParseFromHumanReadable_def)
next
  assume a: "string \<noteq> [] \<and> ByteSize_REGEX_match (lower (strip string)) = Some (coefficient, suffix) \<and>
    map_of ByteSize_DIVIDERS suffix = Some multiplier \<and> CHR ''.'' \<notin> set coefficient"
  then have "is_digits coefficient" using REGEX_group1_digits by blast
  then have "int_of_str coefficient = Inr (int (digits_val coefficient))"
    by (rule int_of_str_digits)
  with a ByteSize_DIVIDERS_positive [of suffix multiplier]
  show "ByteSize_ParseFromHumanReadable old string = Inr (int (digits_val coefficient) * int multiplier)"
    by (simp add: ByteSize_ParseFromHumanReadable_def)
next
  assume a: "string \<noteq> [] \<and> ByteSize_REGEX_match (lower (strip string)) = Some (coefficient, suffix) \<and>
    map_of ByteSize_DIVIDERS suffix = Some multiplier \<and> CHR ''.'' \<in> set coefficient"
  with ByteSize_DIVIDERS_positive [of suffix multiplier]
  show "ByteSize_ParseFromHumanReadable old string =
          (case float_of_str coefficient of
             Inl e \<Rightarrow> Inl e
           | Inr x \<Rightarrow> int_of_double (double_mul x multiplier))"
    by (simp add: ByteSize_ParseFromHumanReadable_def)
next
  show "map_of ByteSize_DIVIDERS =
     [[] \<mapsto> 1, ''k'' \<mapsto> 1000, ''m'' \<mapsto> 1000000, ''g'' \<mapsto> 1000000000,
      ''ki'' \<mapsto> 1024, ''mi'' \<mapsto> 1048576, ''gi'' \<mapsto> 1073741824]"
    by (rule ext) (simp add: ByteSize_DIVIDERS_def)
qed

theorem ByteSize_ParseFromHumanReadable_cases_witness:
  "ByteSize_ParseFromHumanReadable 0 ''1Kib'' = Inr 1024 \<and>
   ByteSize_ParseFromHumanReadable 0 ''1kb'' = Inr 1000 \<and>
   ByteSize_ParseFromHumanReadable 0 ''1.5Gi'' = Inr 1610612736 \<and>
   ByteSize_ParseFromHumanReadable 0 ''1xb'' = Inl DecodeError"
proof -
  have d: "digits_val ''1'' = 1" by (simp add: digits_val_def digit_val_def)
  have t: "map_of ByteSize_DIVIDERS ''ki'' = Some 1024" "map_of ByteSize_DIVIDERS ''k'' = Some 1000"
    "map_of ByteSize_DIVIDERS ''gi'' = Some 1073741824"
    by (simp_all add: ByteSize_DIVIDERS_def)
  have "ByteSize_ParseFromHumanReadable 0 ''1Kib'' = Inr 1024"
    using ByteSize_ParseFromHumanReadable_cases [of _ _ _ 0 "''1Kib''" "''1''" "''ki''" 1024]
    by (simp add: match_examples t d)
  moreover have "ByteSize_ParseFromHumanReadable 0 ''1kb'' = Inr 1000"
    using ByteSize_ParseFromHumanReadable_cases [of _ _ _ 0 "''1kb''" "''1''" "''k''" 1000]
    by (simp add: match_examples t d)
  moreover have "ByteSize_ParseFromHumanReadable 0 ''1.5Gi'' = Inr 1610612736"
    using ByteSize_ParseFromHumanReadable_cases [of _ _ _ 0 "''1.5Gi''" "''1.5''" "''gi''" 1073741824]
    by (simp add: match_examples t float_1_5 mul_1_5_gi del: double_mul.simps)
  moreover have "ByteSize_ParseFromHumanReadable 0 ''1xb'' = Inl DecodeError"
    using ByteSize_ParseFromHumanReadable_cases [of _ _ _ 0 "''1xb''"]
    by (simp add: match_examples)
  ultimately show ?thesis by simp
qed

end
